theory Spec2Isabelle
  imports Complex_Main "HOL-Library.Multiset"
begin

section \<open>Configuration constants (app.js, lines 10-16)\<close>

definition NEW_BATCH_SIZE :: nat where
  "NEW_BATCH_SIZE = 50"

definition MIX_SIZE :: nat where
  "MIX_SIZE = 50"

definition MASTER_THRESHOLD :: nat where
  "MASTER_THRESHOLD = 20"

definition REVIEW_THRESHOLD :: nat where
  "REVIEW_THRESHOLD = 20"

section \<open>Strings and property reads\<close>

text \<open>
  A JavaScript string is a sequence of UTF-16 code units, numbers below \<open>65536\<close>; \<open>str\<close>
  writes an ASCII string as its code units.
\<close>

type_synonym jsstring = "nat list"

definition str :: "string \<Rightarrow> jsstring" where
  "str s = map of_char s"

text \<open>
  The three statistics objects \<^verbatim>\<open>storyUsage\<close>, \<^verbatim>\<open>clickCount\<close> and \<^verbatim>\<open>lastClickUsage\<close> are
  plain objects. A map of type \<open>counters\<close> holds the own properties of such an object:
  the counters, which are written by \<^verbatim>\<open>increment(1)\<close>, by the literal \<open>1\<close> and by
  copying a \<^verbatim>\<open>storyUsage\<close> value, so that they are natural numbers.

  The read \<^verbatim>\<open>m[w]\<close> gives the own property where there is one. Where there is none,
  the object inherits from \<^verbatim>\<open>Object.prototype\<close>: for the name of one of its members the
  read gives that member, a function (for \<^verbatim>\<open>__proto__\<close> the prototype object), and for
  every other name it gives \<^verbatim>\<open>undefined\<close>.
\<close>

type_synonym counters = "jsstring \<rightharpoonup> nat"

definition objectPrototypeKeys :: "jsstring list" where
  "objectPrototypeKeys = map str
     [''constructor'', ''hasOwnProperty'', ''isPrototypeOf'', ''propertyIsEnumerable'',
      ''toLocaleString'', ''toString'', ''valueOf'', ''__proto__'', ''__defineGetter__'',
      ''__defineSetter__'', ''__lookupGetter__'', ''__lookupSetter__'']"

text \<open>The same list as code units, for evaluation.\<close>

lemma objectPrototypeKeys_code [code]:
  "objectPrototypeKeys =
     [[99, 111, 110, 115, 116, 114, 117, 99, 116, 111, 114],
      [104, 97, 115, 79, 119, 110, 80, 114, 111, 112, 101, 114, 116, 121],
      [105, 115, 80, 114, 111, 116, 111, 116, 121, 112, 101, 79, 102],
      [112, 114, 111, 112, 101, 114, 116, 121, 73, 115, 69, 110, 117, 109, 101, 114, 97, 98,
       108, 101],
      [116, 111, 76, 111, 99, 97, 108, 101, 83, 116, 114, 105, 110, 103],
      [116, 111, 83, 116, 114, 105, 110, 103],
      [118, 97, 108, 117, 101, 79, 102],
      [95, 95, 112, 114, 111, 116, 111, 95, 95],
      [95, 95, 100, 101, 102, 105, 110, 101, 71, 101, 116, 116, 101, 114, 95, 95],
      [95, 95, 100, 101, 102, 105, 110, 101, 83, 101, 116, 116, 101, 114, 95, 95],
      [95, 95, 108, 111, 111, 107, 117, 112, 71, 101, 116, 116, 101, 114, 95, 95],
      [95, 95, 108, 111, 111, 107, 117, 112, 83, 101, 116, 116, 101, 114, 95, 95]]"
  unfolding objectPrototypeKeys_def str_def by simp

datatype jsval = Undefined | Num nat | Inherited

definition getProp :: "counters \<Rightarrow> jsstring \<Rightarrow> jsval" where
  "getProp m w =
     (case m w of
        Some v \<Rightarrow> Num v
      | None \<Rightarrow> if w \<in> set objectPrototypeKeys then Inherited else Undefined)"

text \<open>
  \<^verbatim>\<open>x || 0\<close>: \<^verbatim>\<open>undefined\<close> and \<open>0\<close> are falsy and give \<open>0\<close>; a function or an object is
  truthy and is the result.
\<close>

definition orZero :: "jsval \<Rightarrow> jsval" where
  "orZero x = (case x of Undefined \<Rightarrow> Num 0 | Num n \<Rightarrow> Num n | Inherited \<Rightarrow> Inherited)"

text \<open>
  The conversion to a number that \<^verbatim>\<open><\<close>, \<^verbatim>\<open>>\<close>, \<^verbatim>\<open>>=\<close> and \<^verbatim>\<open>-\<close> apply to an operand:
  \<^verbatim>\<open>undefined\<close>, a function and the prototype object convert to \<^verbatim>\<open>NaN\<close>, which is
  \<open>None\<close>. A difference with \<^verbatim>\<open>NaN\<close> is \<^verbatim>\<open>NaN\<close>, and every comparison with
  \<^verbatim>\<open>NaN\<close> is false.
\<close>

definition toNumber :: "jsval \<Rightarrow> int option" where
  "toNumber x = (case x of Num n \<Rightarrow> Some (int n) | Undefined \<Rightarrow> None | Inherited \<Rightarrow> None)"

definition jsSub :: "int option \<Rightarrow> int option \<Rightarrow> int option" where
  "jsSub a b = (case a of None \<Rightarrow> None | Some x \<Rightarrow> (case b of None \<Rightarrow> None | Some y \<Rightarrow> Some (x - y)))"

definition jsLess :: "int option \<Rightarrow> int option \<Rightarrow> bool" where
  "jsLess a b = (case a of None \<Rightarrow> False | Some x \<Rightarrow> (case b of None \<Rightarrow> False | Some y \<Rightarrow> x < y))"

definition jsGeq :: "int option \<Rightarrow> int option \<Rightarrow> bool" where
  "jsGeq a b = (case a of None \<Rightarrow> False | Some x \<Rightarrow> (case b of None \<Rightarrow> False | Some y \<Rightarrow> x \<ge> y))"

text \<open>
  The count that a map records for a word, \<open>0\<close> where it records none: the reading of
  the specification, in which a missing entry is \<open>0\<close>. It is used to state properties,
  not to model a read of the code.
\<close>

definition ownOr0 :: "counters \<Rightarrow> jsstring \<Rightarrow> nat" where
  "ownOr0 m w = (case m w of None \<Rightarrow> 0 | Some v \<Rightarrow> v)"

section \<open>The random source\<close>

text \<open>
  \<^verbatim>\<open>Math.random()\<close> is modelled by a sequence of natural numbers, one per call: the
  state of the generator is the sequence of the draws still to come. The index
  \<^verbatim>\<open>Math.floor(Math.random() * copy.length)\<close> is some position below \<^verbatim>\<open>copy.length\<close>;
  the model takes the next draw modulo the length, so every position can be chosen and
  none outside the array.
\<close>

type_synonym rng = "nat \<Rightarrow> nat"

definition advance :: "rng \<Rightarrow> rng" where
  "advance g = (\<lambda>k. g (Suc k))"

text \<open>\<^verbatim>\<open>copy.splice(idx, 1)\<close>: the array without its element at \<open>idx\<close>.\<close>

definition splice1 :: "nat \<Rightarrow> 'a list \<Rightarrow> 'a list" where
  "splice1 idx copy = take idx copy @ drop (Suc idx) copy"

function pickRandom_loop :: "rng \<Rightarrow> 'a list \<Rightarrow> 'a list \<Rightarrow> nat \<Rightarrow> 'a list \<times> rng" where
  "pickRandom_loop g copy picked n =
     (if length picked < n \<and> copy \<noteq> [] then
        pickRandom_loop (advance g) (splice1 (g 0 mod length copy) copy)
          (picked @ [copy ! (g 0 mod length copy)]) n
      else (picked, g))"
  by pat_completeness auto
termination
proof (relation "measure (\<lambda>(g, copy, picked, n). length copy)")
  show "wf (measure (\<lambda>(g, copy, picked, n). length copy))"
    by simp
next
  fix g :: rng and copy picked :: "'a list" and n :: nat
  assume "length picked < n \<and> copy \<noteq> []"
  then have "g 0 mod length copy < length copy"
    by simp
  then show "((advance g, splice1 (g 0 mod length copy) copy,
               picked @ [copy ! (g 0 mod length copy)], n), (g, copy, picked, n))
             \<in> measure (\<lambda>(g, copy, picked, n). length copy)"
    by (simp add: splice1_def)
qed

declare pickRandom_loop.simps [simp del]

definition pickRandom :: "rng \<Rightarrow> 'a list \<Rightarrow> nat \<Rightarrow> 'a list \<times> rng" where
  "pickRandom g arr n = pickRandom_loop g arr [] n"

section \<open>The five categories of selectSpacedRepetitionWords (app.js, lines 51-63)\<close>

text \<open>
  The five filter conditions, operator by operator. \<^verbatim>\<open>=== 0\<close> holds of the number \<open>0\<close>
  only. In the second and third condition \<^verbatim>\<open>storyUsage[w]\<close> is read without
  \<^verbatim>\<open>|| 0\<close>.
\<close>

definition isUnseen :: "counters \<Rightarrow> jsstring \<Rightarrow> bool" where
  "isUnseen su w = (orZero (getProp su w) = Num 0)"

definition isSeenUnclicked :: "counters \<Rightarrow> counters \<Rightarrow> jsstring \<Rightarrow> bool" where
  "isSeenUnclicked su cc w =
     (jsLess (Some 0) (toNumber (orZero (getProp su w))) \<and>
      jsLess (toNumber (getProp su w)) (Some (int MASTER_THRESHOLD)) \<and>
      orZero (getProp cc w) = Num 0)"

definition isClickedInLearning :: "counters \<Rightarrow> counters \<Rightarrow> counters \<Rightarrow> jsstring \<Rightarrow> bool" where
  "isClickedInLearning su cc lcu w =
     (jsLess (Some 0) (toNumber (orZero (getProp cc w))) \<and>
      jsLess (jsSub (toNumber (getProp su w)) (toNumber (orZero (getProp lcu w))))
        (Some (int REVIEW_THRESHOLD)))"

definition isMasteredByRepetition :: "counters \<Rightarrow> counters \<Rightarrow> jsstring \<Rightarrow> bool" where
  "isMasteredByRepetition su cc w =
     (jsGeq (toNumber (orZero (getProp su w))) (Some (int MASTER_THRESHOLD)) \<and>
      orZero (getProp cc w) = Num 0)"

definition isMasteredByReview :: "counters \<Rightarrow> counters \<Rightarrow> counters \<Rightarrow> jsstring \<Rightarrow> bool" where
  "isMasteredByReview su cc lcu w =
     (jsLess (Some 0) (toNumber (orZero (getProp cc w))) \<and>
      jsGeq (jsSub (toNumber (getProp su w)) (toNumber (orZero (getProp lcu w))))
        (Some (int REVIEW_THRESHOLD)))"

section \<open>selectSpacedRepetitionWords (app.js, lines 49-114)\<close>

text \<open>
  The local variables of the function, as a record. \<^verbatim>\<open>Array.prototype.sort\<close> sorts
  \<^verbatim>\<open>clickedInLearning\<close> in place and is stable: \<open>sortedClicked\<close> is the same array, and
  the backfill pool, built after the sort, reads it in sorted order. \<open>provisional\<close> is
  \<^verbatim>\<open>selectedWords\<close> after step 6, \<open>selectedWords\<close> its final value. The array
  \<open>available\<close> is computed and never read. \<^verbatim>\<open>Math.ceil(n / 3)\<close> is written
  \<open>(n + 2) div 3\<close>; that this is the ceiling is the lemma \<open>ceil_third\<close> below.
\<close>

record selection =
  unseen :: "jsstring list"
  seenUnclicked :: "jsstring list"
  clickedInLearning :: "jsstring list"
  masteredByRepetition :: "jsstring list"
  masteredByReview :: "jsstring list"
  available :: "jsstring list"
  batchNew :: "jsstring list"
  sortedClicked :: "jsstring list"
  third :: nat
  hard :: "jsstring list"
  medium :: "jsstring list"
  easy :: "jsstring list"
  hardPick :: "jsstring list"
  mediumPick :: "jsstring list"
  easyPick :: "jsstring list"
  provisional :: "jsstring list"
  selectedWords :: "jsstring list"
  rngAfter :: rng

text \<open>
  The comparator of the sort is \<^verbatim>\<open>(clickCount[a] || 0) - (clickCount[b] || 0)\<close>: the
  array is sorted by the number \<^verbatim>\<open>clickCount[w] || 0\<close>. The words of
  \<^verbatim>\<open>clickedInLearning\<close> have a positive own \<^verbatim>\<open>clickCount\<close>, so the comparator never meets
  an inherited member there, and the key \<open>0\<close> that the model gives to one is never used.
\<close>

definition clickKey :: "counters \<Rightarrow> jsstring \<Rightarrow> nat" where
  "clickKey cc w = (case orZero (getProp cc w) of Num n \<Rightarrow> n | Undefined \<Rightarrow> 0 | Inherited \<Rightarrow> 0)"

text \<open>\<^verbatim>\<open>arr.slice(start, end)\<close> for \<open>start \<le> end\<close>, and \<^verbatim>\<open>arr.slice(start)\<close>.\<close>

definition slice :: "'a list \<Rightarrow> nat \<Rightarrow> nat \<Rightarrow> 'a list" where
  "slice arr start end = take (end - start) (drop start arr)"

definition sliceFrom :: "'a list \<Rightarrow> nat \<Rightarrow> 'a list" where
  "sliceFrom arr start = drop start arr"

text \<open>The fallback pool of step 7, in its order of precedence.\<close>

definition fallbackPool ::
    "jsstring list \<Rightarrow> jsstring list \<Rightarrow> jsstring list \<Rightarrow> jsstring list \<Rightarrow> jsstring list" where
  "fallbackPool uns seenUn clicked sel =
     filter (\<lambda>w. w \<notin> set sel) uns @
     filter (\<lambda>w. w \<notin> set sel) seenUn @
     filter (\<lambda>w. w \<notin> set sel) clicked"

definition selectLocals ::
    "rng \<Rightarrow> jsstring list \<Rightarrow> counters \<Rightarrow> counters \<Rightarrow> counters \<Rightarrow> selection" where
  "selectLocals g0 allWords su cc lcu =
     (let uns = filter (isUnseen su) allWords;
          seenUn = filter (isSeenUnclicked su cc) allWords;
          clicked = filter (isClickedInLearning su cc lcu) allWords;
          mRep = filter (isMasteredByRepetition su cc) allWords;
          mRev = filter (isMasteredByReview su cc lcu) allWords;
          avail = filter (\<lambda>w. w \<notin> set mRep \<and> w \<notin> set mRev) allWords;
          (bNew, g1) = pickRandom g0 uns (min (length uns) NEW_BATCH_SIZE);
          srt = sort_key (clickKey cc) clicked;
          thd = (length srt + 2) div 3;
          hrd = slice srt 0 thd;
          med = slice srt thd (2 * thd);
          esy = sliceFrom srt (2 * thd);
          (hPick, g2) = pickRandom g1 hrd (min (length hrd) 20);
          (mPick, g3) = pickRandom g2 med (min (length med) 20);
          (ePick, g4) = pickRandom g3 esy (min (length esy) 10);
          prov = bNew @ hPick @ mPick @ ePick;
          (final, g5) =
            (if length prov < 100 then
               (let remaining = 100 - length prov;
                    pool = fallbackPool uns seenUn srt prov;
                    (fill, g') = pickRandom g4 pool (min (length pool) remaining)
                in (prov @ fill, g'))
             else (prov, g4))
      in \<lparr> unseen = uns, seenUnclicked = seenUn, clickedInLearning = clicked,
           masteredByRepetition = mRep, masteredByReview = mRev, available = avail,
           batchNew = bNew, sortedClicked = srt, third = thd,
           hard = hrd, medium = med, easy = esy,
           hardPick = hPick, mediumPick = mPick, easyPick = ePick,
           provisional = prov, selectedWords = final, rngAfter = g5 \<rparr>)"

definition selectSpacedRepetitionWords ::
    "rng \<Rightarrow> jsstring list \<Rightarrow> counters \<Rightarrow> counters \<Rightarrow> counters \<Rightarrow> jsstring list" where
  "selectSpacedRepetitionWords g allWords su cc lcu =
     selectedWords (selectLocals g allWords su cc lcu)"

text \<open>
  The number of the five category arrays of the function that hold the word \<open>w\<close>.
\<close>

definition tierCount :: "selection \<Rightarrow> jsstring \<Rightarrow> nat" where
  "tierCount s w =
     length (filter (\<lambda>l. w \<in> set l)
       [unseen s, seenUnclicked s, clickedInLearning s, masteredByRepetition s,
        masteredByReview s])"

section \<open>sanitizeWord (app.js, lines 280-282)\<close>

text \<open>
  \<^verbatim>\<open>word.replace(/[\p{P}\p{S}]+/gu, "").trim()\<close>. With the flag \<^verbatim>\<open>u\<close> the regular
  expression reads the string as code points: a high surrogate followed by a low
  surrogate is one code point of two code units, and every other code unit, an unpaired
  surrogate too, is a code point by itself.
\<close>

definition isHigh :: "nat \<Rightarrow> bool" where
  "isHigh u = (0xD800 \<le> u \<and> u < 0xDC00)"

definition isLow :: "nat \<Rightarrow> bool" where
  "isLow u = (0xDC00 \<le> u \<and> u < 0xE000)"

fun codePoints :: "jsstring \<Rightarrow> jsstring list" where
  "codePoints [] = []"
| "codePoints [u] = [[u]]"
| "codePoints (h # l # us) =
     (if isHigh h \<and> isLow l then [h, l] # codePoints us else [h] # codePoints (l # us))"

definition pointValue :: "jsstring \<Rightarrow> nat" where
  "pointValue p =
     (case p of
        [u] \<Rightarrow> u
      | [h, l] \<Rightarrow> 0x10000 + (h - 0xD800) * 0x400 + (l - 0xDC00)
      | _ \<Rightarrow> 0)"

text \<open>
  The class \<^verbatim>\<open>[\p{P}\p{S}]\<close>, the Unicode punctuation and symbols, is a table of the
  JavaScript engine and not of this repository: it is the parameter \<open>isPS\<close>, a predicate
  on code points.

  The global replace scans the code points from the left; at a code point of the class
  it matches the longest run of such code points, replaces the run by the empty string
  and goes on behind it.
\<close>

function replaceRuns :: "('c \<Rightarrow> bool) \<Rightarrow> 'c list \<Rightarrow> 'c list" where
  "replaceRuns cls [] = []"
| "replaceRuns cls (c # cs) =
     (if cls c then replaceRuns cls (dropWhile cls cs) else c # replaceRuns cls cs)"
  by pat_completeness auto
termination
proof (relation "measure (\<lambda>(cls, s). length s)")
  show "wf (measure (\<lambda>(cls, s). length s))"
    by simp
next
  fix cls :: "'c \<Rightarrow> bool" and c :: 'c and cs :: "'c list"
  have "length (dropWhile cls cs) \<le> length cs"
    by (rule length_dropWhile_le)
  then show "((cls, dropWhile cls cs), (cls, c # cs)) \<in> measure (\<lambda>(cls, s). length s)"
    by simp
next
  fix cls :: "'c \<Rightarrow> bool" and c :: 'c and cs :: "'c list"
  show "((cls, cs), (cls, c # cs)) \<in> measure (\<lambda>(cls, s). length s)"
    by simp
qed

text \<open>
  \<^verbatim>\<open>String.prototype.trim\<close> removes, at both ends, the white space and the line
  terminators of ECMAScript: tab, line feed, vertical tab, form feed, carriage return,
  the space, the no-break space, the code points of the category of space separators,
  the line and paragraph separators, and the byte order mark. All of them are single
  code units.
\<close>

definition isWhiteSpace :: "nat \<Rightarrow> bool" where
  "isWhiteSpace u =
     (u \<in> set [0x9, 0xA, 0xB, 0xC, 0xD, 0x20, 0xA0, 0x1680, 0x2000, 0x2001, 0x2002, 0x2003,
               0x2004, 0x2005, 0x2006, 0x2007, 0x2008, 0x2009, 0x200A, 0x2028, 0x2029,
               0x202F, 0x205F, 0x3000, 0xFEFF])"

definition trim :: "jsstring \<Rightarrow> jsstring" where
  "trim s = rev (dropWhile isWhiteSpace (rev (dropWhile isWhiteSpace s)))"

definition sanitizeWord :: "(nat \<Rightarrow> bool) \<Rightarrow> jsstring \<Rightarrow> jsstring" where
  "sanitizeWord isPS word =
     trim (concat (replaceRuns (\<lambda>p. isPS (pointValue p)) (codePoints word)))"

text \<open>
  A string is well formed when it has no unpaired surrogate: each of its code points is
  a single code unit that is no surrogate, or a high surrogate with a low surrogate.
\<close>

definition goodPoint :: "jsstring \<Rightarrow> bool" where
  "goodPoint p =
     (case p of
        [u] \<Rightarrow> \<not> isHigh u \<and> \<not> isLow u
      | [h, l] \<Rightarrow> isHigh h \<and> isLow l
      | _ \<Rightarrow> False)"

definition wellFormed :: "jsstring \<Rightarrow> bool" where
  "wellFormed s = list_all goodPoint (codePoints s)"

section \<open>The Firestore documents and the two handlers\<close>

text \<open>
  The collection \<^verbatim>\<open>meta\<close> holds two documents: \<^verbatim>\<open>wordBank\<close>, with the array
  \<^verbatim>\<open>words\<close>, and \<^verbatim>\<open>wordStats\<close>, with the three maps. A document that does not exist
  is \<open>None\<close>; a field that is missing reads as the empty array or the empty map
  (\<^verbatim>\<open>data().words || []\<close>, \<^verbatim>\<open>stats.storyUsage || {}\<close>). An element of \<^verbatim>\<open>words\<close> is a
  string or a value of another type. The handlers run to their end one at a time:
  interleavings of asynchronous handlers and failures of the storage service are outside
  the model.
\<close>

record stats =
  storyUsage :: counters
  clickCount :: counters
  lastClickUsage :: counters

datatype fsvalue = FString jsstring | FOther

record db =
  wordBank :: "fsvalue list option"
  wordStats :: "stats option"

definition emptyStats :: stats where
  "emptyStats = \<lparr> storyUsage = Map.empty, clickCount = Map.empty, lastClickUsage = Map.empty \<rparr>"

text \<open>
  What a handler does besides changing the documents, in the order of the source: the
  calls of \<^verbatim>\<open>getDoc\<close>, \<^verbatim>\<open>updateDoc\<close> and \<^verbatim>\<open>setDoc\<close> with the name of the document
  (whether a write succeeds shows in the documents returned), the alerts, the call of
  the selector with its result, the call of the story generator, and the console
  messages of the click handler.
\<close>

datatype effect =
    GetDoc string
  | UpdateDoc string
  | SetDoc string
  | AlertUploadFirst
  | AlertNeedAtLeast nat nat
  | Selected "jsstring list"
  | GenerateStory "jsstring list"
  | LogClicked jsstring
  | LogCreated jsstring
  | LogClickError

text \<open>
  \<^verbatim>\<open>updateDoc\<close> with the fields \<^verbatim>\<open>storyUsage.w: increment(1)\<close>: the update object has
  one key for each selected word, and every key adds its amount to the counter, which
  starts at \<open>0\<close> where it is missing. A word is taken as one field name: a word with a
  dot in it, which Firestore reads as a path, is outside the model.
\<close>

definition usageUpdates :: "jsstring list \<Rightarrow> counters" where
  "usageUpdates selected = foldl (\<lambda>acc w. acc(w \<mapsto> 1)) Map.empty selected"

definition applyIncrements :: "counters \<Rightarrow> counters \<Rightarrow> counters" where
  "applyIncrements m upd = (\<lambda>w. case upd w of None \<Rightarrow> m w | Some k \<Rightarrow> Some (ownOr0 m w + k))"

text \<open>
  \<^verbatim>\<open>statsSnap.exists() ? statsSnap.data() : {}\<close>, with the three maps read by
  \<^verbatim>\<open>|| {}\<close>.
\<close>

definition statsOrEmpty :: "db \<Rightarrow> stats" where
  "statsOrEmpty d = (case wordStats d of Some st \<Rightarrow> st | None \<Rightarrow> emptyStats)"

text \<open>
  The word universe that \<^verbatim>\<open>fetchWords\<close> loads (app.js, lines 208-210): every string
  of the word bank normalised, a value of another type replaced by the empty string, and
  the empty strings dropped. \<open>nfkc\<close> is \<^verbatim>\<open>String.prototype.normalize('NFKC')\<close>, a
  table of the engine.
\<close>

definition allWordsOf :: "(jsstring \<Rightarrow> jsstring) \<Rightarrow> fsvalue list \<Rightarrow> jsstring list" where
  "allWordsOf nfkc ws =
     filter (\<lambda>w. length w \<noteq> 0) (map (\<lambda>v. case v of FString s \<Rightarrow> nfkc s | FOther \<Rightarrow> []) ws)"

text \<open>
  The click handler of \<^verbatim>\<open>fetchWords\<close> (app.js, lines 202-245), up to the call of the
  story generator.
\<close>

definition fetchWords ::
    "(jsstring \<Rightarrow> jsstring) \<Rightarrow> rng \<Rightarrow> db \<Rightarrow> effect list \<times> db \<times> rng" where
  "fetchWords nfkc g d =
     (case wordBank d of
        None \<Rightarrow> ([GetDoc ''wordBank'', AlertUploadFirst], d, g)
      | Some ws \<Rightarrow>
          (let allWords = allWordsOf nfkc ws;
               st = statsOrEmpty d
           in if length allWords < NEW_BATCH_SIZE + MIX_SIZE then
                ([GetDoc ''wordBank'', GetDoc ''wordStats'',
                  AlertNeedAtLeast (NEW_BATCH_SIZE + MIX_SIZE) (length allWords)], d, g)
              else
                (let sel = selectLocals g allWords (storyUsage st) (clickCount st)
                       (lastClickUsage st);
                     selected = selectedWords sel
                 in case wordStats d of
                      Some old \<Rightarrow>
                        ([GetDoc ''wordBank'', GetDoc ''wordStats'', Selected selected,
                          UpdateDoc ''wordStats'', GenerateStory selected],
                         d\<lparr>wordStats := Some (old\<lparr>storyUsage :=
                            applyIncrements (storyUsage old) (usageUpdates selected)\<rparr>)\<rparr>,
                         rngAfter sel)
                    | None \<Rightarrow>
                        ([GetDoc ''wordBank'', GetDoc ''wordStats'', Selected selected,
                          SetDoc ''wordStats'', GenerateStory selected],
                         d\<lparr>wordStats := Some \<lparr> storyUsage = usageUpdates selected,
                            clickCount = Map.empty, lastClickUsage = Map.empty \<rparr>\<rparr>,
                         rngAfter sel))))"

text \<open>
  \<^verbatim>\<open>handleWordClick\<close> (app.js, lines 323-351). The value written to
  \<^verbatim>\<open>lastClickUsage\<close> is \<^verbatim>\<open>storyUsage[word] || 0\<close>. Where this is a number,
  \<^verbatim>\<open>updateDoc\<close> fails with \<^verbatim>\<open>not-found\<close> exactly when the document does not exist, and
  the handler then creates it. Where it is an inherited member of
  \<^verbatim>\<open>Object.prototype\<close>, Firestore refuses the value when \<^verbatim>\<open>updateDoc\<close> is called, with
  an error that is not \<^verbatim>\<open>not-found\<close>: the handler writes the error to the console, and
  nothing is written to the documents. \<^verbatim>\<open>x || 0\<close> has no other value than a number or
  an inherited member.
\<close>

definition handleWordClick :: "(nat \<Rightarrow> bool) \<Rightarrow> jsstring \<Rightarrow> db \<Rightarrow> effect list \<times> db" where
  "handleWordClick isPS rawWord d =
     (let word = sanitizeWord isPS rawWord
      in if word = [] then ([], d)
         else
           (case orZero (getProp (storyUsage (statsOrEmpty d)) word) of
              Num usage \<Rightarrow>
                (case wordStats d of
                   Some old \<Rightarrow>
                     ([GetDoc ''wordStats'', UpdateDoc ''wordStats'', LogClicked word],
                      d\<lparr>wordStats := Some (old\<lparr>
                         clickCount := (clickCount old)(word \<mapsto> ownOr0 (clickCount old) word + 1),
                         lastClickUsage := (lastClickUsage old)(word \<mapsto> usage)\<rparr>)\<rparr>)
                 | None \<Rightarrow>
                     ([GetDoc ''wordStats'', UpdateDoc ''wordStats'', SetDoc ''wordStats'',
                       LogCreated word],
                      d\<lparr>wordStats := Some \<lparr> storyUsage = Map.empty,
                         clickCount = [word \<mapsto> 1],
                         lastClickUsage = [word \<mapsto> usage] \<rparr>\<rparr>))
            | _ \<Rightarrow> ([GetDoc ''wordStats'', UpdateDoc ''wordStats'', LogClickError], d)))"

text \<open>
  The click listener that \<^verbatim>\<open>displaySelectableStory\<close> puts on the span of a token
  (app.js, lines 308-312).
\<close>

definition spanClick :: "(nat \<Rightarrow> bool) \<Rightarrow> jsstring \<Rightarrow> db \<Rightarrow> effect list \<times> db" where
  "spanClick isPS token d =
     (let clicked = sanitizeWord isPS token
      in if clicked \<noteq> [] then handleWordClick isPS clicked d else ([], d))"

section \<open>Data of the examples\<close>

text \<open>
  A part of the class of punctuation and symbols: some ASCII punctuation and the symbol
  U+1F600.
\<close>

definition examplePS :: "nat \<Rightarrow> bool" where
  "examplePS cp = (cp \<in> set [0x21, 0x28, 0x29, 0x2C, 0x2E, 0x3A, 0x3B, 0x3F, 0x1F600])"

text \<open>
  A universe of one hundred different two-letter words, \<open>aa\<close> to \<open>jj\<close>, as code
  units: \<open>97\<close> is the letter \<open>a\<close> and \<open>106\<close> the letter \<open>j\<close>.
\<close>

definition tenLetters :: "nat list" where
  "tenLetters = [97, 98, 99, 100, 101, 102, 103, 104, 105, 106]"

definition hundredWords :: "jsstring list" where
  "hundredWords = concat (map (\<lambda>a. map (\<lambda>b. [a, b]) tenLetters) tenLetters)"



text \<open>
  A universe of the eleven one-letter words \<open>a\<close> to \<open>k\<close> (the code units \<open>97\<close> to
  \<open>107\<close>): \<open>a\<close> is mastered by repetition, \<open>b\<close> mastered by review, \<open>c\<close> seen and not
  clicked, \<open>d\<close> unseen, and the seven words \<open>e\<close> to \<open>k\<close> are clicked and in learning.
\<close>

definition exampleWords :: "jsstring list" where
  "exampleWords = [[97], [98], [99], [100], [101], [102], [103], [104], [105], [106], [107]]"

definition exampleUsage :: counters where
  "exampleUsage = map_of [([97], 25), ([98], 30), ([99], 2), ([101], 15), ([102], 4),
     ([103], 6), ([104], 9), ([105], 7), ([106], 3), ([107], 8)]"

definition exampleClicks :: counters where
  "exampleClicks = map_of [([98], 3), ([101], 3), ([102], 1), ([103], 2), ([104], 5),
     ([105], 4), ([106], 1), ([107], 2)]"

definition exampleLast :: counters where
  "exampleLast = map_of [([98], 5), ([101], 5), ([102], 2), ([103], 6), ([104], 1),
     ([106], 3), ([107], 4)]"

text \<open>A random source for the examples: the draws \<open>1, 3, 5, \<dots>\<close>\<close>

definition exampleDraws :: rng where
  "exampleDraws = (\<lambda>k. 2 * k + 1)"

section \<open>Properties of pickRandom\<close>

text \<open>
  The loop adds an element to \<open>picked\<close> in every round, removing it from \<open>copy\<close>: it
  returns \<open>min n (length arr)\<close> elements, which form a sub-multiset of the array, for
  every random source.
\<close>

lemma pickRandom_loop_length:
  "length picked \<le> n \<Longrightarrow>
   length (fst (pickRandom_loop g copy picked n)) = min n (length picked + length copy)"
proof (induction g copy picked n rule: pickRandom_loop.induct)
  case (1 g copy picked n)
  show ?case
  proof (cases "length picked < n \<and> copy \<noteq> []")
    case True
    then have "g 0 mod length copy < length copy" by simp
    with True 1 show ?thesis
      by (subst pickRandom_loop.simps) (simp add: splice1_def)
  next
    case False
    with 1 show ?thesis
      by (subst pickRandom_loop.simps) auto
  qed
qed

lemma mset_splice1:
  assumes "idx < length copy"
  shows "mset copy = add_mset (copy ! idx) (mset (splice1 idx copy))"
proof -
  have "copy = take idx copy @ copy ! idx # drop (Suc idx) copy"
    using assms by (rule id_take_nth_drop)
  then have "mset copy = mset (take idx copy @ copy ! idx # drop (Suc idx) copy)"
    by simp
  then show ?thesis
    by (simp add: splice1_def)
qed

lemma pickRandom_loop_mset:
  "mset (fst (pickRandom_loop g copy picked n)) \<subseteq># mset picked + mset copy"
proof (induction g copy picked n rule: pickRandom_loop.induct)
  case (1 g copy picked n)
  show ?case
  proof (cases "length picked < n \<and> copy \<noteq> []")
    case True
    then have "g 0 mod length copy < length copy" by simp
    then have "mset copy =
        add_mset (copy ! (g 0 mod length copy)) (mset (splice1 (g 0 mod length copy) copy))"
      by (rule mset_splice1)
    with True 1 show ?thesis
      by (subst pickRandom_loop.simps) simp
  next
    case False
    then show ?thesis
      by (subst pickRandom_loop.simps) auto
  qed
qed

lemma pickRandom_length:
  "pickRandom g arr n = (p, g') \<Longrightarrow> length p = min n (length arr)"
  using pickRandom_loop_length [of "[]" n g arr] by (simp add: pickRandom_def)

lemma pickRandom_mset:
  "pickRandom g arr n = (p, g') \<Longrightarrow> mset p \<subseteq># mset arr"
  using pickRandom_loop_mset [of g arr "[]" n] by (simp add: pickRandom_def)

lemma pickRandom_set:
  "pickRandom g arr n = (p, g') \<Longrightarrow> set p \<subseteq> set arr"
  by (drule pickRandom_mset) (rule set_mset_mono [of "mset p" "mset arr", simplified])

lemma submset_distinct:
  assumes sub: "mset xs \<subseteq># mset ys" and d: "distinct ys"
  shows "distinct xs"
  unfolding distinct_count_atmost_1
proof (intro allI)
  fix a
  have le: "count (mset xs) a \<le> count (mset ys) a"
    using sub by (rule mset_subset_eq_count)
  have ys: "count (mset ys) a = (if a \<in> set ys then 1 else 0)"
    using d by (simp add: distinct_count_atmost_1)
  show "count (mset xs) a = (if a \<in> set xs then 1 else 0)"
  proof (cases "a \<in> set xs")
    case True
    then have "0 < count (mset xs) a" by simp
    moreover have "count (mset ys) a \<le> 1"
      by (simp add: ys)
    then have "count (mset xs) a \<le> 1"
      using le by linarith
    ultimately have "count (mset xs) a = 1"
      by linarith
    with True show ?thesis
      by (simp only: if_True)
  next
    case False
    then show ?thesis by simp
  qed
qed

lemma pickRandom_distinct:
  "pickRandom g arr n = (p, g') \<Longrightarrow> distinct arr \<Longrightarrow> distinct p"
  by (drule pickRandom_mset) (rule submset_distinct)

section \<open>The locals of selectSpacedRepetitionWords, unpacked\<close>

text \<open>
  One elimination rule names the results of the five calls of \<open>pickRandom\<close> and gives
  every local variable in terms of them.
\<close>

lemma selectLocals_cases:
  fixes g :: rng and aw :: "jsstring list" and su cc lcu :: counters
  defines "uns \<equiv> filter (isUnseen su) aw"
    and "seenUn \<equiv> filter (isSeenUnclicked su cc) aw"
    and "clicked \<equiv> filter (isClickedInLearning su cc lcu) aw"
    and "mRep \<equiv> filter (isMasteredByRepetition su cc) aw"
    and "mRev \<equiv> filter (isMasteredByReview su cc lcu) aw"
  defines "srt \<equiv> sort_key (clickKey cc) clicked"
  defines "thd \<equiv> (length srt + 2) div 3"
  obtains bNew g1 hPick g2 mPick g3 ePick g4 fill g5 where
    "pickRandom g uns (min (length uns) NEW_BATCH_SIZE) = (bNew, g1)"
    "pickRandom g1 (slice srt 0 thd) (min (length (slice srt 0 thd)) 20) = (hPick, g2)"
    "pickRandom g2 (slice srt thd (2 * thd)) (min (length (slice srt thd (2 * thd))) 20)
       = (mPick, g3)"
    "pickRandom g3 (sliceFrom srt (2 * thd)) (min (length (sliceFrom srt (2 * thd))) 10)
       = (ePick, g4)"
    "pickRandom g4 (fallbackPool uns seenUn srt (bNew @ hPick @ mPick @ ePick))
       (min (length (fallbackPool uns seenUn srt (bNew @ hPick @ mPick @ ePick)))
          (100 - length (bNew @ hPick @ mPick @ ePick))) = (fill, g5)"
    "selectLocals g aw su cc lcu =
       \<lparr> unseen = uns, seenUnclicked = seenUn, clickedInLearning = clicked,
         masteredByRepetition = mRep, masteredByReview = mRev,
         available = filter (\<lambda>w. w \<notin> set mRep \<and> w \<notin> set mRev) aw,
         batchNew = bNew, sortedClicked = srt, third = thd,
         hard = slice srt 0 thd, medium = slice srt thd (2 * thd),
         easy = sliceFrom srt (2 * thd),
         hardPick = hPick, mediumPick = mPick, easyPick = ePick,
         provisional = bNew @ hPick @ mPick @ ePick,
         selectedWords =
           (if length (bNew @ hPick @ mPick @ ePick) < 100
            then (bNew @ hPick @ mPick @ ePick) @ fill else bNew @ hPick @ mPick @ ePick),
         rngAfter = (if length (bNew @ hPick @ mPick @ ePick) < 100 then g5 else g4) \<rparr>"
proof -
  obtain bNew g1 where 1: "pickRandom g uns (min (length uns) NEW_BATCH_SIZE) = (bNew, g1)"
    by (cases "pickRandom g uns (min (length uns) NEW_BATCH_SIZE)")
  obtain hPick g2 where
    2: "pickRandom g1 (slice srt 0 thd) (min (length (slice srt 0 thd)) 20) = (hPick, g2)"
    by (cases "pickRandom g1 (slice srt 0 thd) (min (length (slice srt 0 thd)) 20)")
  obtain mPick g3 where
    3: "pickRandom g2 (slice srt thd (2 * thd)) (min (length (slice srt thd (2 * thd))) 20)
          = (mPick, g3)"
    by (cases "pickRandom g2 (slice srt thd (2 * thd))
                 (min (length (slice srt thd (2 * thd))) 20)")
  obtain ePick g4 where
    4: "pickRandom g3 (sliceFrom srt (2 * thd)) (min (length (sliceFrom srt (2 * thd))) 10)
          = (ePick, g4)"
    by (cases "pickRandom g3 (sliceFrom srt (2 * thd))
                 (min (length (sliceFrom srt (2 * thd))) 10)")
  obtain fill g5 where
    5: "pickRandom g4 (fallbackPool uns seenUn srt (bNew @ hPick @ mPick @ ePick))
          (min (length (fallbackPool uns seenUn srt (bNew @ hPick @ mPick @ ePick)))
             (100 - length (bNew @ hPick @ mPick @ ePick))) = (fill, g5)"
    by (cases "pickRandom g4 (fallbackPool uns seenUn srt (bNew @ hPick @ mPick @ ePick))
          (min (length (fallbackPool uns seenUn srt (bNew @ hPick @ mPick @ ePick)))
             (100 - length (bNew @ hPick @ mPick @ ePick)))")
  have "selectLocals g aw su cc lcu =
       \<lparr> unseen = uns, seenUnclicked = seenUn, clickedInLearning = clicked,
         masteredByRepetition = mRep, masteredByReview = mRev,
         available = filter (\<lambda>w. w \<notin> set mRep \<and> w \<notin> set mRev) aw,
         batchNew = bNew, sortedClicked = srt, third = thd,
         hard = slice srt 0 thd, medium = slice srt thd (2 * thd),
         easy = sliceFrom srt (2 * thd),
         hardPick = hPick, mediumPick = mPick, easyPick = ePick,
         provisional = bNew @ hPick @ mPick @ ePick,
         selectedWords =
           (if length (bNew @ hPick @ mPick @ ePick) < 100
            then (bNew @ hPick @ mPick @ ePick) @ fill else bNew @ hPick @ mPick @ ePick),
         rngAfter = (if length (bNew @ hPick @ mPick @ ePick) < 100 then g5 else g4) \<rparr>"
    unfolding selectLocals_def Let_def
    unfolding uns_def [symmetric] seenUn_def [symmetric] clicked_def [symmetric]
      mRep_def [symmetric] mRev_def [symmetric]
    unfolding srt_def [symmetric]
    unfolding thd_def [symmetric]
    unfolding 1 prod.case 2 3 4 5
    by (cases "length (bNew @ hPick @ mPick @ ePick) < 100") (simp_all only: if_True if_False prod.case)
  with 1 2 3 4 5 show thesis
    by (rule that)
qed

text \<open>The facts about the locals that the properties below rest on.\<close>

lemma selectLocals_facts:
  fixes g :: rng and aw :: "jsstring list" and su cc lcu :: counters
  defines "s \<equiv> selectLocals g aw su cc lcu"
  shows "unseen s = filter (isUnseen su) aw"
    and "seenUnclicked s = filter (isSeenUnclicked su cc) aw"
    and "clickedInLearning s = filter (isClickedInLearning su cc lcu) aw"
    and "masteredByRepetition s = filter (isMasteredByRepetition su cc) aw"
    and "masteredByReview s = filter (isMasteredByReview su cc lcu) aw"
    and "sortedClicked s = sort_key (clickKey cc) (clickedInLearning s)"
    and "third s = (length (sortedClicked s) + 2) div 3"
    and "hard s = slice (sortedClicked s) 0 (third s)"
    and "medium s = slice (sortedClicked s) (third s) (2 * third s)"
    and "easy s = sliceFrom (sortedClicked s) (2 * third s)"
    and "provisional s = batchNew s @ hardPick s @ mediumPick s @ easyPick s"
    and "length (batchNew s) = min (length (unseen s)) NEW_BATCH_SIZE"
    and "mset (batchNew s) \<subseteq># mset (unseen s)"
    and "length (hardPick s) = min (length (hard s)) 20"
    and "mset (hardPick s) \<subseteq># mset (hard s)"
    and "length (mediumPick s) = min (length (medium s)) 20"
    and "mset (mediumPick s) \<subseteq># mset (medium s)"
    and "length (easyPick s) = min (length (easy s)) 10"
    and "mset (easyPick s) \<subseteq># mset (easy s)"
    and "\<exists>fill. selectedWords s = provisional s @ fill \<and>
           mset fill \<subseteq># mset (fallbackPool (unseen s) (seenUnclicked s) (sortedClicked s)
                                 (provisional s)) \<and>
           length fill = min (length (fallbackPool (unseen s) (seenUnclicked s) (sortedClicked s)
                                 (provisional s))) (100 - length (provisional s))"
proof -
  let ?uns = "filter (isUnseen su) aw"
  let ?seenUn = "filter (isSeenUnclicked su cc) aw"
  let ?clicked = "filter (isClickedInLearning su cc lcu) aw"
  let ?srt = "sort_key (clickKey cc) ?clicked"
  let ?thd = "(length ?srt + 2) div 3"
  obtain bNew g1 hPick g2 mPick g3 ePick g4 fill g5 where
    p1: "pickRandom g ?uns (min (length ?uns) NEW_BATCH_SIZE) = (bNew, g1)" and
    p2: "pickRandom g1 (slice ?srt 0 ?thd) (min (length (slice ?srt 0 ?thd)) 20) = (hPick, g2)" and
    p3: "pickRandom g2 (slice ?srt ?thd (2 * ?thd)) (min (length (slice ?srt ?thd (2 * ?thd))) 20)
       = (mPick, g3)" and
    p4: "pickRandom g3 (sliceFrom ?srt (2 * ?thd)) (min (length (sliceFrom ?srt (2 * ?thd))) 10)
       = (ePick, g4)" and
    p5: "pickRandom g4 (fallbackPool ?uns ?seenUn ?srt (bNew @ hPick @ mPick @ ePick))
       (min (length (fallbackPool ?uns ?seenUn ?srt (bNew @ hPick @ mPick @ ePick)))
          (100 - length (bNew @ hPick @ mPick @ ePick))) = (fill, g5)" and
    s: "s =
       \<lparr> unseen = ?uns, seenUnclicked = ?seenUn, clickedInLearning = ?clicked,
         masteredByRepetition = filter (isMasteredByRepetition su cc) aw,
         masteredByReview = filter (isMasteredByReview su cc lcu) aw,
         available = filter (\<lambda>w. w \<notin> set (filter (isMasteredByRepetition su cc) aw) \<and>
                                w \<notin> set (filter (isMasteredByReview su cc lcu) aw)) aw,
         batchNew = bNew, sortedClicked = ?srt, third = ?thd,
         hard = slice ?srt 0 ?thd, medium = slice ?srt ?thd (2 * ?thd),
         easy = sliceFrom ?srt (2 * ?thd),
         hardPick = hPick, mediumPick = mPick, easyPick = ePick,
         provisional = bNew @ hPick @ mPick @ ePick,
         selectedWords =
           (if length (bNew @ hPick @ mPick @ ePick) < 100
            then (bNew @ hPick @ mPick @ ePick) @ fill else bNew @ hPick @ mPick @ ePick),
         rngAfter = (if length (bNew @ hPick @ mPick @ ePick) < 100 then g5 else g4) \<rparr>"
    unfolding s_def by (rule selectLocals_cases [of g su aw cc lcu])
  show "unseen s = filter (isUnseen su) aw"
    and "seenUnclicked s = filter (isSeenUnclicked su cc) aw"
    and "clickedInLearning s = filter (isClickedInLearning su cc lcu) aw"
    and "masteredByRepetition s = filter (isMasteredByRepetition su cc) aw"
    and "masteredByReview s = filter (isMasteredByReview su cc lcu) aw"
    and "sortedClicked s = sort_key (clickKey cc) (clickedInLearning s)"
    and "third s = (length (sortedClicked s) + 2) div 3"
    and "hard s = slice (sortedClicked s) 0 (third s)"
    and "medium s = slice (sortedClicked s) (third s) (2 * third s)"
    and "easy s = sliceFrom (sortedClicked s) (2 * third s)"
    and "provisional s = batchNew s @ hardPick s @ mediumPick s @ easyPick s"
    by (simp_all add: s)
  show "length (batchNew s) = min (length (unseen s)) NEW_BATCH_SIZE"
    using pickRandom_length [OF p1] by (simp add: s)
  show "mset (batchNew s) \<subseteq># mset (unseen s)"
    using pickRandom_mset [OF p1] by (simp add: s)
  show "length (hardPick s) = min (length (hard s)) 20"
    using pickRandom_length [OF p2] by (simp add: s)
  show "mset (hardPick s) \<subseteq># mset (hard s)"
    using pickRandom_mset [OF p2] by (simp add: s)
  show "length (mediumPick s) = min (length (medium s)) 20"
    using pickRandom_length [OF p3] by (simp add: s)
  show "mset (mediumPick s) \<subseteq># mset (medium s)"
    using pickRandom_mset [OF p3] by (simp add: s)
  show "length (easyPick s) = min (length (easy s)) 10"
    using pickRandom_length [OF p4] by (simp add: s)
  show "mset (easyPick s) \<subseteq># mset (easy s)"
    using pickRandom_mset [OF p4] by (simp add: s)
  let ?prov = "bNew @ hPick @ mPick @ ePick"
  let ?pool = "fallbackPool ?uns ?seenUn ?srt ?prov"
  show "\<exists>fill. selectedWords s = provisional s @ fill \<and>
           mset fill \<subseteq># mset (fallbackPool (unseen s) (seenUnclicked s) (sortedClicked s)
                                 (provisional s)) \<and>
           length fill = min (length (fallbackPool (unseen s) (seenUnclicked s) (sortedClicked s)
                                 (provisional s))) (100 - length (provisional s))"
  proof (cases "length ?prov < 100")
    case True
    have "selectedWords s = provisional s @ fill"
      using True by (simp add: s)
    moreover have "mset fill \<subseteq># mset ?pool"
      using p5 by (rule pickRandom_mset)
    moreover have "length fill = min (length ?pool) (100 - length ?prov)"
      using pickRandom_length [OF p5] by simp
    ultimately show ?thesis
      by (intro exI [of _ fill]) (simp add: s)
  next
    case False
    have "selectedWords s = provisional s @ []"
      using False by (simp add: s)
    moreover have "length ([] :: jsstring list) = min (length ?pool) (100 - length ?prov)"
      using False by simp
    ultimately show ?thesis
      by (intro exI [of _ "[]"]) (simp add: s)
  qed
qed

section \<open>Where the selected words come from\<close>

lemma set_slice: "set (slice xs a b) \<subseteq> set xs"
  unfolding slice_def
  by (meson set_take_subset set_drop_subset subset_trans)

lemma set_sliceFrom: "set (sliceFrom xs a) \<subseteq> set xs"
  unfolding sliceFrom_def by (rule set_drop_subset)

lemma set_fallbackPool:
  "set (fallbackPool uns seenUn clicked sel) \<subseteq> set uns \<union> set seenUn \<union> set clicked"
  by (auto simp: fallbackPool_def)

lemma selected_sources:
  assumes "w \<in> set (selectedWords (selectLocals g aw su cc lcu))"
  shows "w \<in> set aw \<and>
         (isUnseen su w \<or> isSeenUnclicked su cc w \<or> isClickedInLearning su cc lcu w)"
proof -
  let ?s = "selectLocals g aw su cc lcu"
  note f = selectLocals_facts [of g aw su cc lcu]
  obtain fill where sel: "selectedWords ?s = provisional ?s @ fill" and
    fill: "mset fill \<subseteq># mset (fallbackPool (unseen ?s) (seenUnclicked ?s) (sortedClicked ?s)
                                 (provisional ?s))"
    using f(20) by blast
  have srt: "set (sortedClicked ?s) = set (clickedInLearning ?s)"
    by (simp add: f(6))
  have "set (batchNew ?s) \<subseteq> set (unseen ?s)"
    using f(13) by (rule set_mset_mono [of "mset _" "mset _", simplified])
  moreover have "set (hardPick ?s) \<subseteq> set (clickedInLearning ?s)"
    using set_mset_mono [OF f(15)] set_slice [of "sortedClicked ?s" 0 "third ?s"]
    by (simp add: f(8) srt)
  moreover have "set (mediumPick ?s) \<subseteq> set (clickedInLearning ?s)"
    using set_mset_mono [OF f(17)] set_slice [of "sortedClicked ?s" "third ?s" "2 * third ?s"]
    by (simp add: f(9) srt)
  moreover have "set (easyPick ?s) \<subseteq> set (clickedInLearning ?s)"
    using set_mset_mono [OF f(19)] set_sliceFrom [of "sortedClicked ?s" "2 * third ?s"]
    by (simp add: f(10) srt)
  moreover have "set fill \<subseteq> set (unseen ?s) \<union> set (seenUnclicked ?s) \<union> set (clickedInLearning ?s)"
    using set_mset_mono [OF fill]
      set_fallbackPool [of "unseen ?s" "seenUnclicked ?s" "sortedClicked ?s" "provisional ?s"]
    by (simp add: srt)
  moreover have "w \<in> set (batchNew ?s) \<union> set (hardPick ?s) \<union> set (mediumPick ?s) \<union>
      set (easyPick ?s) \<union> set fill"
    using assms by (auto simp: sel f(11))
  ultimately have "w \<in> set (unseen ?s) \<union> set (seenUnclicked ?s) \<union> set (clickedInLearning ?s)"
    by blast
  then show ?thesis
    by (auto simp: f(1) f(2) f(3))
qed

text \<open>
  The selected words have no inherited member among the reads that select them, and the
  conditions of the code agree there with the counts that the maps record.
\<close>

lemma tier_reads:
  "isUnseen su w \<longleftrightarrow> (su w = Some 0 \<or> (su w = None \<and> w \<notin> set objectPrototypeKeys))"
  "isSeenUnclicked su cc w \<longleftrightarrow>
     (\<exists>s. su w = Some s \<and> 0 < s \<and> s < MASTER_THRESHOLD) \<and>
     (cc w = Some 0 \<or> (cc w = None \<and> w \<notin> set objectPrototypeKeys))"
  "isClickedInLearning su cc lcu w \<longleftrightarrow>
     (\<exists>c s. cc w = Some c \<and> 0 < c \<and> su w = Some s \<and>
        int s - int (ownOr0 lcu w) < int REVIEW_THRESHOLD) \<and>
     (lcu w = None \<longrightarrow> w \<notin> set objectPrototypeKeys)"
  "isMasteredByRepetition su cc w \<longleftrightarrow>
     (\<exists>s. su w = Some s \<and> MASTER_THRESHOLD \<le> s) \<and>
     (cc w = Some 0 \<or> (cc w = None \<and> w \<notin> set objectPrototypeKeys))"
  "isMasteredByReview su cc lcu w \<longleftrightarrow>
     (\<exists>c s. cc w = Some c \<and> 0 < c \<and> su w = Some s \<and>
        int REVIEW_THRESHOLD \<le> int s - int (ownOr0 lcu w)) \<and>
     (lcu w = None \<longrightarrow> w \<notin> set objectPrototypeKeys)"
  by (auto simp: isUnseen_def isSeenUnclicked_def isClickedInLearning_def
      isMasteredByRepetition_def isMasteredByReview_def getProp_def orZero_def toNumber_def
      jsLess_def jsGeq_def jsSub_def ownOr0_def MASTER_THRESHOLD_def REVIEW_THRESHOLD_def
      split: option.splits if_splits)

lemma clickKey_ownOr0: "clickKey cc w = ownOr0 cc w"
  by (simp add: clickKey_def getProp_def orZero_def ownOr0_def split: option.splits)

lemma mastered_not_source:
  assumes "isUnseen su w \<or> isSeenUnclicked su cc w \<or> isClickedInLearning su cc lcu w"
  shows "\<not> isMasteredByRepetition su cc w" and "\<not> isMasteredByReview su cc lcu w"
  using assms unfolding tier_reads
  by (auto simp: MASTER_THRESHOLD_def REVIEW_THRESHOLD_def)

section \<open>The batch stays inside the universe\<close>

text \<open>
  Claim C9. For every word universe \<open>allWords\<close>, every triple of stat maps and every
  random source, each word of the list that \<open>selectSpacedRepetitionWords\<close> returns is an
  element of \<open>allWords\<close>: the selector invents no word.
\<close>

theorem selected_in_universe:
  "set (selectSpacedRepetitionWords g allWords su cc lcu) \<subseteq> set allWords"
proof
  fix w
  assume "w \<in> set (selectSpacedRepetitionWords g allWords su cc lcu)"
  then have "w \<in> set (selectedWords (selectLocals g allWords su cc lcu))"
    by (simp only: selectSpacedRepetitionWords_def)
  then show "w \<in> set allWords"
    using selected_sources by blast
qed

section \<open>No mastered word is selected\<close>

text \<open>
  Claim C3. A word of the returned list is neither mastered by repetition
  (\<open>storyUsage \<ge> MASTER_THRESHOLD\<close> and \<open>clickCount = 0\<close>) nor mastered by review
  (\<open>clickCount > 0\<close> and \<open>storyUsage - lastClickUsage \<ge> REVIEW_THRESHOLD\<close>), with missing
  entries read as \<open>0\<close>; and it is in neither of the two lists \<open>masteredByRepetition\<close>
  and \<open>masteredByReview\<close> that the function computes at the call.
\<close>

theorem no_mastered_selected:
  assumes "w \<in> set (selectSpacedRepetitionWords g allWords su cc lcu)"
  shows "\<not> (ownOr0 su w \<ge> MASTER_THRESHOLD \<and> ownOr0 cc w = 0) \<and>
         \<not> (ownOr0 cc w > 0 \<and>
            int (ownOr0 su w) - int (ownOr0 lcu w) \<ge> int REVIEW_THRESHOLD) \<and>
         w \<notin> set (masteredByRepetition (selectLocals g allWords su cc lcu)) \<and>
         w \<notin> set (masteredByReview (selectLocals g allWords su cc lcu))"
proof -
  have src: "isUnseen su w \<or> isSeenUnclicked su cc w \<or> isClickedInLearning su cc lcu w"
    using assms selected_sources [of w g allWords su cc lcu]
    by (simp add: selectSpacedRepetitionWords_def)
  have rep: "\<not> isMasteredByRepetition su cc w" and rev: "\<not> isMasteredByReview su cc lcu w"
    using src by (rule mastered_not_source)+
  have "\<not> (ownOr0 su w \<ge> MASTER_THRESHOLD \<and> ownOr0 cc w = 0)"
    using src unfolding tier_reads
    by (auto simp: ownOr0_def MASTER_THRESHOLD_def)
  moreover have
    "\<not> (ownOr0 cc w > 0 \<and> int (ownOr0 su w) - int (ownOr0 lcu w) \<ge> int REVIEW_THRESHOLD)"
    using src unfolding tier_reads
    by (auto simp: ownOr0_def REVIEW_THRESHOLD_def)
  moreover have "w \<notin> set (masteredByRepetition (selectLocals g allWords su cc lcu))"
    using rep by (simp add: selectLocals_facts(4))
  moreover have "w \<notin> set (masteredByReview (selectLocals g allWords su cc lcu))"
    using rev by (simp add: selectLocals_facts(5))
  ultimately show ?thesis
    by blast
qed

text \<open>
  In the universe of the eleven words, of which \<open>a\<close> is mastered by repetition and
  \<open>b\<close> by review, the word \<open>c\<close> is selected (by the backfill) and is not mastered.
\<close>

theorem no_mastered_selected_witness:
  "[99] \<in> set (selectSpacedRepetitionWords exampleDraws exampleWords exampleUsage
      exampleClicks exampleLast) \<and>
   \<not> (ownOr0 exampleUsage [99] \<ge> MASTER_THRESHOLD \<and> ownOr0 exampleClicks [99] = 0) \<and>
   \<not> (ownOr0 exampleClicks [99] > 0 \<and>
      int (ownOr0 exampleUsage [99]) - int (ownOr0 exampleLast [99]) \<ge> int REVIEW_THRESHOLD) \<and>
   [99] \<notin> set (masteredByRepetition (selectLocals exampleDraws exampleWords exampleUsage
      exampleClicks exampleLast)) \<and>
   [99] \<notin> set (masteredByReview (selectLocals exampleDraws exampleWords exampleUsage
      exampleClicks exampleLast))"
proof -
  have h: "[99] \<in> set (selectSpacedRepetitionWords exampleDraws exampleWords exampleUsage
      exampleClicks exampleLast)"
    by code_simp
  show ?thesis
    using h no_mastered_selected [OF h] by blast
qed

section \<open>The size of the batch\<close>









section \<open>The review bands and the quotas\<close>

lemma bands_append: "slice xs 0 t @ slice xs t (2 * t) @ sliceFrom xs (2 * t) = xs"
proof -
  have "take t (drop t xs) @ drop (2 * t) xs = drop t xs"
    by (metis append_take_drop_id drop_drop mult_2)
  then show ?thesis
    by (simp add: slice_def sliceFrom_def)
qed

lemma ceil_third: "int ((n + 2) div 3) = \<lceil>real n / 3\<rceil>"
proof -
  have "\<lceil>real n / 3\<rceil> = \<lceil>of_int (int n) / (of_int 3 :: real)\<rceil>" by simp
  also have "\<dots> = - (- int n div 3)" by (rule ceiling_divide_eq_div)
  also have "\<dots> = int ((n + 2) div 3)" by (simp add: zdiv_int)
  finally show ?thesis by simp
qed

text \<open>
  Claim C5. The unseen and the clicked-in-learning words are the words of the universe
  that pass the two filters. The review stage sorts the clicked-in-learning words
  ascending by \<open>clickCount\<close>; \<open>third\<close> is the ceiling of a third of their number; the
  bands \<open>hard\<close>, \<open>medium\<close> and \<open>easy\<close> cut the sorted sequence by position, the first two
  of size \<open>third\<close> clamped to what is left and the last holding the rest. Each pick is a
  sub-multiset of its band (drawn without replacement) and has the size of the band up
  to the quota of 20, 20 and 10 words; the new-word pick is a sub-multiset of the
  unseen words and has their number up to \<open>NEW_BATCH_SIZE\<close>.
\<close>

theorem review_bands_and_quotas:
  "unseen (selectLocals g allWords su cc lcu) = filter (isUnseen su) allWords \<and>
   clickedInLearning (selectLocals g allWords su cc lcu) =
     filter (isClickedInLearning su cc lcu) allWords \<and>
   sorted (map (ownOr0 cc) (sortedClicked (selectLocals g allWords su cc lcu))) \<and>
   mset (sortedClicked (selectLocals g allWords su cc lcu)) =
     mset (clickedInLearning (selectLocals g allWords su cc lcu)) \<and>
   int (third (selectLocals g allWords su cc lcu)) =
     \<lceil>real (length (clickedInLearning (selectLocals g allWords su cc lcu))) / 3\<rceil> \<and>
   hard (selectLocals g allWords su cc lcu) =
     take (third (selectLocals g allWords su cc lcu))
       (sortedClicked (selectLocals g allWords su cc lcu)) \<and>
   medium (selectLocals g allWords su cc lcu) =
     take (third (selectLocals g allWords su cc lcu))
       (drop (third (selectLocals g allWords su cc lcu))
         (sortedClicked (selectLocals g allWords su cc lcu))) \<and>
   easy (selectLocals g allWords su cc lcu) =
     drop (2 * third (selectLocals g allWords su cc lcu))
       (sortedClicked (selectLocals g allWords su cc lcu)) \<and>
   hard (selectLocals g allWords su cc lcu) @ medium (selectLocals g allWords su cc lcu) @
     easy (selectLocals g allWords su cc lcu) = sortedClicked (selectLocals g allWords su cc lcu) \<and>
   length (hardPick (selectLocals g allWords su cc lcu)) =
     min 20 (length (hard (selectLocals g allWords su cc lcu))) \<and>
   mset (hardPick (selectLocals g allWords su cc lcu)) \<subseteq>#
     mset (hard (selectLocals g allWords su cc lcu)) \<and>
   length (mediumPick (selectLocals g allWords su cc lcu)) =
     min 20 (length (medium (selectLocals g allWords su cc lcu))) \<and>
   mset (mediumPick (selectLocals g allWords su cc lcu)) \<subseteq>#
     mset (medium (selectLocals g allWords su cc lcu)) \<and>
   length (easyPick (selectLocals g allWords su cc lcu)) =
     min 10 (length (easy (selectLocals g allWords su cc lcu))) \<and>
   mset (easyPick (selectLocals g allWords su cc lcu)) \<subseteq>#
     mset (easy (selectLocals g allWords su cc lcu)) \<and>
   length (batchNew (selectLocals g allWords su cc lcu)) =
     min NEW_BATCH_SIZE (length (unseen (selectLocals g allWords su cc lcu))) \<and>
   mset (batchNew (selectLocals g allWords su cc lcu)) \<subseteq>#
     mset (unseen (selectLocals g allWords su cc lcu))"
proof -
  let ?s = "selectLocals g allWords su cc lcu"
  note f = selectLocals_facts [of g allWords su cc lcu]
  have key: "clickKey cc = ownOr0 cc"
    by (rule ext) (rule clickKey_ownOr0)
  have 1: "sorted (map (ownOr0 cc) (sortedClicked ?s))"
    by (simp add: f(6) key)
  have 2: "mset (sortedClicked ?s) = mset (clickedInLearning ?s)"
    by (simp add: f(6))
  have 3: "int (third ?s) = \<lceil>real (length (clickedInLearning ?s)) / 3\<rceil>"
    using ceil_third [of "length (clickedInLearning ?s)"] by (simp add: f(7) f(6))
  have 4: "hard ?s = take (third ?s) (sortedClicked ?s)"
    "medium ?s = take (third ?s) (drop (third ?s) (sortedClicked ?s))"
    "easy ?s = drop (2 * third ?s) (sortedClicked ?s)"
    by (simp_all add: f(8) f(9) f(10) slice_def sliceFrom_def)
  have 5: "hard ?s @ medium ?s @ easy ?s = sortedClicked ?s"
    unfolding f(8) f(9) f(10) by (rule bands_append)
  have 6: "length (hardPick ?s) = min 20 (length (hard ?s))"
    "length (mediumPick ?s) = min 20 (length (medium ?s))"
    "length (easyPick ?s) = min 10 (length (easy ?s))"
    "length (batchNew ?s) = min NEW_BATCH_SIZE (length (unseen ?s))"
    by (simp_all add: f(12) f(14) f(16) f(18) min.commute)
  show ?thesis
    using f(1) f(3) 1 2 3 4 5 6 f(13) f(15) f(17) f(19) by blast
qed

text \<open>
  The review stage of the eleven words. The seven clicked words, sorted by their click
  counts \<open>1, 1, 2, 2, 3, 4, 5\<close>, are \<open>f, j, g, k, e, i, h\<close>; a third is three words; every
  band is picked whole, in the order of the draws.
\<close>

theorem review_bands_and_quotas_witness:
  "clickedInLearning (selectLocals exampleDraws exampleWords exampleUsage exampleClicks
     exampleLast) = [[101], [102], [103], [104], [105], [106], [107]] \<and>
   sortedClicked (selectLocals exampleDraws exampleWords exampleUsage exampleClicks
     exampleLast) = [[102], [106], [103], [107], [101], [105], [104]] \<and>
   third (selectLocals exampleDraws exampleWords exampleUsage exampleClicks exampleLast) = 3 \<and>
   hard (selectLocals exampleDraws exampleWords exampleUsage exampleClicks exampleLast) =
     [[102], [106], [103]] \<and>
   medium (selectLocals exampleDraws exampleWords exampleUsage exampleClicks exampleLast) =
     [[107], [101], [105]] \<and>
   easy (selectLocals exampleDraws exampleWords exampleUsage exampleClicks exampleLast) =
     [[104]] \<and>
   hardPick (selectLocals exampleDraws exampleWords exampleUsage exampleClicks exampleLast) =
     [[102], [103], [106]] \<and>
   mediumPick (selectLocals exampleDraws exampleWords exampleUsage exampleClicks exampleLast) =
     [[107], [105], [101]] \<and>
   easyPick (selectLocals exampleDraws exampleWords exampleUsage exampleClicks exampleLast) =
     [[104]] \<and>
   batchNew (selectLocals exampleDraws exampleWords exampleUsage exampleClicks exampleLast) =
     [[100]] \<and>
   length (hardPick (selectLocals exampleDraws exampleWords exampleUsage exampleClicks
     exampleLast)) = min 20 (length (hard (selectLocals exampleDraws exampleWords exampleUsage
       exampleClicks exampleLast))) \<and>
   mset (hardPick (selectLocals exampleDraws exampleWords exampleUsage exampleClicks
     exampleLast)) \<subseteq># mset (hard (selectLocals exampleDraws exampleWords exampleUsage
       exampleClicks exampleLast))"
proof -
  let ?s = "selectLocals exampleDraws exampleWords exampleUsage exampleClicks exampleLast"
  have ev: "(let s = ?s in
      (clickedInLearning s, sortedClicked s, third s, hard s, medium s, easy s,
       hardPick s, mediumPick s, easyPick s, batchNew s)) =
    ([[101], [102], [103], [104], [105], [106], [107]],
     [[102], [106], [103], [107], [101], [105], [104]], 3,
     [[102], [106], [103]], [[107], [101], [105]], [[104]],
     [[102], [103], [106]], [[107], [105], [101]], [[104]], [[100]])"
    by code_simp
  have fields: "clickedInLearning ?s = [[101], [102], [103], [104], [105], [106], [107]] \<and>
      sortedClicked ?s = [[102], [106], [103], [107], [101], [105], [104]] \<and>
      third ?s = 3 \<and> hard ?s = [[102], [106], [103]] \<and>
      medium ?s = [[107], [101], [105]] \<and> easy ?s = [[104]] \<and>
      hardPick ?s = [[102], [103], [106]] \<and> mediumPick ?s = [[107], [105], [101]] \<and>
      easyPick ?s = [[104]] \<and> batchNew ?s = [[100]]"
    using ev by (simp only: Let_def prod.inject)
  have quota: "length (hardPick ?s) = min 20 (length (hard ?s)) \<and>
      mset (hardPick ?s) \<subseteq># mset (hard ?s)"
    using review_bands_and_quotas [of exampleDraws exampleWords exampleUsage exampleClicks
        exampleLast]
    by blast
  show ?thesis
    using fields quota by blast
qed

section \<open>The five categories as a partition\<close>

lemma tierCount_sum:
  "tierCount s w =
     (if w \<in> set (unseen s) then 1 else 0) + (if w \<in> set (seenUnclicked s) then 1 else 0) +
     (if w \<in> set (clickedInLearning s) then 1 else 0) +
     (if w \<in> set (masteredByRepetition s) then 1 else 0) +
     (if w \<in> set (masteredByReview s) then 1 else 0)"
  by (simp add: tierCount_def)

text \<open>
  Where none of the three reads gives an inherited member, one of the five conditions
  holds. Two conditions hold together only for the unseen and the clicked-in-learning
  words, and only where \<open>storyUsage\<close> records \<open>0\<close> and \<open>clickCount\<close> is positive.
\<close>

lemma tier_cases:
  assumes "getProp su w \<noteq> Inherited" "getProp cc w \<noteq> Inherited"
    "getProp lcu w \<noteq> Inherited"
  shows "isUnseen su w \<or> isSeenUnclicked su cc w \<or> isClickedInLearning su cc lcu w \<or>
   isMasteredByRepetition su cc w \<or> isMasteredByReview su cc lcu w"
proof -
  have plain: "su w = None \<longrightarrow> w \<notin> set objectPrototypeKeys"
    "cc w = None \<longrightarrow> w \<notin> set objectPrototypeKeys"
    "lcu w = None \<longrightarrow> w \<notin> set objectPrototypeKeys"
    using assms by (auto simp: getProp_def split: option.splits if_splits)
  show ?thesis
  proof (cases "su w")
    case None
    with plain show ?thesis
      by (simp add: tier_reads)
  next
    case (Some s)
    show ?thesis
    proof (cases "cc w")
      case None
      with Some plain show ?thesis
        unfolding tier_reads by (cases "s = 0"; cases "s < MASTER_THRESHOLD") auto
    next
      case c: (Some c)
      with Some plain show ?thesis
        unfolding tier_reads
        by (cases "s = 0"; cases "c = 0"; cases "s < MASTER_THRESHOLD";
            cases "int s - int (ownOr0 lcu w) < int REVIEW_THRESHOLD") auto
    qed
  qed
qed

lemma unseen_clicked_overlap:
  "isUnseen su w \<and> isClickedInLearning su cc lcu w \<Longrightarrow> su w = Some 0 \<and> 0 < ownOr0 cc w"
  unfolding tier_reads by (auto simp: ownOr0_def)

lemma tier_exclusive:
  "\<not> (isUnseen su w \<and> isSeenUnclicked su cc w)"
  "\<not> (isUnseen su w \<and> isMasteredByRepetition su cc w)"
  "\<not> (isUnseen su w \<and> isMasteredByReview su cc lcu w)"
  "\<not> (isSeenUnclicked su cc w \<and> isClickedInLearning su cc lcu w)"
  "\<not> (isSeenUnclicked su cc w \<and> isMasteredByRepetition su cc w)"
  "\<not> (isSeenUnclicked su cc w \<and> isMasteredByReview su cc lcu w)"
  "\<not> (isClickedInLearning su cc lcu w \<and> isMasteredByRepetition su cc w)"
  "\<not> (isClickedInLearning su cc lcu w \<and> isMasteredByReview su cc lcu w)"
  "\<not> (isMasteredByRepetition su cc w \<and> isMasteredByReview su cc lcu w)"
  unfolding tier_reads
  by (auto simp: MASTER_THRESHOLD_def REVIEW_THRESHOLD_def)

text \<open>
  Claim C1, as the code has it. Let \<open>w\<close> be a word of the universe for which none of
  \<open>storyUsage[w]\<close>, \<open>clickCount[w]\<close> and \<open>lastClickUsage[w]\<close> reads as an inherited member
  of \<^verbatim>\<open>Object.prototype\<close>, as is the case for every word that is not the name of such
  a member. Then \<open>w\<close> is in at least one of the five category arrays of
  \<open>selectSpacedRepetitionWords\<close>, and in exactly one unless \<open>storyUsage\<close> holds the entry
  \<open>0\<close> for it while its \<open>clickCount\<close> is positive. The five filters are tested
  independently, not first match first, and the application creates a \<open>storyUsage\<close>
  entry only by an increment or as \<open>1\<close>.
\<close>

theorem tier_partition:
  assumes "w \<in> set allWords"
    and "getProp su w \<noteq> Inherited \<and> getProp cc w \<noteq> Inherited \<and> getProp lcu w \<noteq> Inherited"
  shows "1 \<le> tierCount (selectLocals g allWords su cc lcu) w \<and>
         (\<not> (su w = Some 0 \<and> 0 < ownOr0 cc w) \<longrightarrow>
            tierCount (selectLocals g allWords su cc lcu) w = 1)"
proof -
  note f = selectLocals_facts [of g allWords su cc lcu]
  have mem: "w \<in> set (unseen (selectLocals g allWords su cc lcu)) \<longleftrightarrow> isUnseen su w"
    "w \<in> set (seenUnclicked (selectLocals g allWords su cc lcu)) \<longleftrightarrow> isSeenUnclicked su cc w"
    "w \<in> set (clickedInLearning (selectLocals g allWords su cc lcu)) \<longleftrightarrow>
       isClickedInLearning su cc lcu w"
    "w \<in> set (masteredByRepetition (selectLocals g allWords su cc lcu)) \<longleftrightarrow>
       isMasteredByRepetition su cc w"
    "w \<in> set (masteredByReview (selectLocals g allWords su cc lcu)) \<longleftrightarrow>
       isMasteredByReview su cc lcu w"
    using assms(1) by (simp_all add: f(1) f(2) f(3) f(4) f(5))
  have some: "isUnseen su w \<or> isSeenUnclicked su cc w \<or> isClickedInLearning su cc lcu w \<or>
      isMasteredByRepetition su cc w \<or> isMasteredByReview su cc lcu w"
    using assms(2) by (intro tier_cases) simp_all
  have "1 \<le> tierCount (selectLocals g allWords su cc lcu) w"
    using some unfolding tierCount_sum mem by auto
  moreover have "tierCount (selectLocals g allWords su cc lcu) w = 1"
    if "\<not> (su w = Some 0 \<and> 0 < ownOr0 cc w)"
  proof -
    have "\<not> (isUnseen su w \<and> isClickedInLearning su cc lcu w)"
      using that unseen_clicked_overlap [of su w cc lcu] by blast
    then show ?thesis
      using some tier_exclusive [where su = su and w = w and cc = cc]
      unfolding tierCount_sum mem by auto
  qed
  ultimately show ?thesis
    by blast
qed

text \<open>The word \<open>c\<close> of the eleven words, seen twice and never clicked, is in one category.\<close>

theorem tier_partition_witness:
  "[99] \<in> set exampleWords \<and>
   (getProp exampleUsage [99] \<noteq> Inherited \<and> getProp exampleClicks [99] \<noteq> Inherited \<and>
    getProp exampleLast [99] \<noteq> Inherited) \<and>
   \<not> (exampleUsage [99] = Some 0 \<and> 0 < ownOr0 exampleClicks [99]) \<and>
   tierCount (selectLocals exampleDraws exampleWords exampleUsage exampleClicks exampleLast)
     [99] = 1"
proof -
  have h1: "[99] \<in> set exampleWords"
    by (simp add: exampleWords_def)
  have h2: "getProp exampleUsage [99] \<noteq> Inherited \<and> getProp exampleClicks [99] \<noteq> Inherited \<and>
      getProp exampleLast [99] \<noteq> Inherited"
    by (simp add: getProp_def exampleUsage_def exampleClicks_def exampleLast_def
        objectPrototypeKeys_code)
  have h3: "\<not> (exampleUsage [99] = Some 0 \<and> 0 < ownOr0 exampleClicks [99])"
    by (simp add: exampleUsage_def)
  show ?thesis
    using h1 h2 h3 tier_partition [OF h1 h2, of exampleDraws]
    by blast
qed

text \<open>
  Claim C1 as stated fails in both directions. With the entry \<open>storyUsage[wort] = 0\<close>
  and one click, the word is kept by the filter of the unseen words, as
  \<^verbatim>\<open>(0 || 0) === 0\<close>, and by the filter of the clicked-in-learning words, as
  \<^verbatim>\<open>0 - 0 < 20\<close>: it is in two categories. With empty maps, the word \<open>constructor\<close>
  reads as the inherited function in \<open>storyUsage\<close>, which is neither \<open>0\<close> nor a number:
  it is in no category.
\<close>

theorem tier_overlap_counterexample:
  "str ''wort'' \<in> set [str ''wort''] \<and>
   tierCount (selectLocals (\<lambda>k. 0) [str ''wort''] [str ''wort'' \<mapsto> 0] [str ''wort'' \<mapsto> 1]
      Map.empty) (str ''wort'') = 2 \<and>
   str ''constructor'' \<in> set [str ''constructor''] \<and>
   tierCount (selectLocals (\<lambda>k. 0) [str ''constructor''] Map.empty Map.empty Map.empty)
      (str ''constructor'') = 0"
  by code_simp

section \<open>No word twice in a batch\<close>

lemma distinct_pool:
  assumes "distinct uns" "distinct seenUn" "distinct clicked"
    and "set uns \<inter> set seenUn = {}" "set uns \<inter> set clicked = {}"
    and "set seenUn \<inter> set clicked = {}"
  shows "distinct (fallbackPool uns seenUn clicked sel)"
  using assms by (auto simp: fallbackPool_def)

lemma pool_avoids_selected: "set (fallbackPool uns seenUn clicked sel) \<inter> set sel = {}"
  by (auto simp: fallbackPool_def)

text \<open>
  Claim C2, as the code has it. For a universe without duplicates in which no word has
  the \<open>storyUsage\<close> entry \<open>0\<close> together with a positive \<open>clickCount\<close>, the returned list
  holds every word at most once: the new-word pick, the three band picks and the
  backfill pick are pairwise disjoint.
\<close>

theorem no_duplicates:
  assumes dist: "distinct allWords"
    and zero: "\<forall>w \<in> set allWords. \<not> (su w = Some 0 \<and> 0 < ownOr0 cc w)"
  shows "distinct (selectSpacedRepetitionWords g allWords su cc lcu) \<and>
         (\<exists>fill. selectSpacedRepetitionWords g allWords su cc lcu =
            batchNew (selectLocals g allWords su cc lcu) @
            hardPick (selectLocals g allWords su cc lcu) @
            mediumPick (selectLocals g allWords su cc lcu) @
            easyPick (selectLocals g allWords su cc lcu) @ fill)"
proof -
  let ?s = "selectLocals g allWords su cc lcu"
  let ?pool = "fallbackPool (unseen ?s) (seenUnclicked ?s) (sortedClicked ?s) (provisional ?s)"
  note f = selectLocals_facts [of g allWords su cc lcu]
  obtain fill where sel: "selectedWords ?s = provisional ?s @ fill" and
    fill: "mset fill \<subseteq># mset ?pool"
    using f(20) by blast
  have dU: "distinct (unseen ?s)" and dS: "distinct (seenUnclicked ?s)"
    and dC: "distinct (sortedClicked ?s)"
    using dist by (simp_all add: f(1) f(2) f(3) f(6))
  have setC: "set (sortedClicked ?s) = set (clickedInLearning ?s)"
    by (simp add: f(6))
  have US: "set (unseen ?s) \<inter> set (seenUnclicked ?s) = {}"
    using tier_exclusive(1) [of su _ cc] by (auto simp: f(1) f(2))
  have SC: "set (seenUnclicked ?s) \<inter> set (sortedClicked ?s) = {}"
    using tier_exclusive(4) [of su cc _ lcu] by (auto simp: setC f(2) f(3))
  have UC: "set (unseen ?s) \<inter> set (sortedClicked ?s) = {}"
  proof -
    have "\<not> (isUnseen su w \<and> isClickedInLearning su cc lcu w)" if "w \<in> set allWords" for w
      using zero that unseen_clicked_overlap [of su w cc lcu] by blast
    then show ?thesis
      by (auto simp: setC f(1) f(3))
  qed
  have bands: "distinct (hard ?s @ medium ?s @ easy ?s)"
    using dC bands_append [of "sortedClicked ?s" "third ?s"] by (simp only: f(8) f(9) f(10))
  have sub: "set (hard ?s) \<union> set (medium ?s) \<union> set (easy ?s) = set (sortedClicked ?s)"
    using arg_cong [OF bands_append [of "sortedClicked ?s" "third ?s"], of set]
    by (simp add: f(8) f(9) f(10) Un_assoc)
  have dN: "distinct (batchNew ?s)" and sN: "set (batchNew ?s) \<subseteq> set (unseen ?s)"
    using submset_distinct [OF f(13) dU] set_mset_mono [OF f(13)] by simp_all
  have dH: "distinct (hardPick ?s)" and sH: "set (hardPick ?s) \<subseteq> set (hard ?s)"
    using submset_distinct [OF f(15)] bands set_mset_mono [OF f(15)] by simp_all
  have dM: "distinct (mediumPick ?s)" and sM: "set (mediumPick ?s) \<subseteq> set (medium ?s)"
    using submset_distinct [OF f(17)] bands set_mset_mono [OF f(17)] by simp_all
  have dE: "distinct (easyPick ?s)" and sE: "set (easyPick ?s) \<subseteq> set (easy ?s)"
    using submset_distinct [OF f(19)] bands set_mset_mono [OF f(19)] by simp_all
  have disj: "set (hard ?s) \<inter> set (medium ?s) = {}" "set (hard ?s) \<inter> set (easy ?s) = {}"
    "set (medium ?s) \<inter> set (easy ?s) = {}"
    using bands by auto
  have ME: "set (mediumPick ?s) \<inter> set (easyPick ?s) = {}"
    using sM sE disj(3) by blast
  have HME: "set (hardPick ?s) \<inter> (set (mediumPick ?s) \<union> set (easyPick ?s)) = {}"
    using sH sM sE disj(1) disj(2) by blast
  have "set (hardPick ?s) \<union> set (mediumPick ?s) \<union> set (easyPick ?s)
      \<subseteq> set (sortedClicked ?s)"
    using sH sM sE sub by blast
  then have NHME: "set (batchNew ?s) \<inter>
      (set (hardPick ?s) \<union> set (mediumPick ?s) \<union> set (easyPick ?s)) = {}"
    using sN UC by blast
  have dProv: "distinct (provisional ?s)"
    using dN dH dM dE ME HME NHME by (simp add: f(11) Un_assoc)
  have dPool: "distinct ?pool"
    using dU dS dC US UC SC by (rule distinct_pool)
  have dFill: "distinct fill" and sFill: "set fill \<subseteq> set ?pool"
    using submset_distinct [OF fill dPool] set_mset_mono [OF fill] by simp_all
  have "set fill \<inter> set (provisional ?s) = {}"
    using sFill pool_avoids_selected [of "unseen ?s" "seenUnclicked ?s" "sortedClicked ?s"
        "provisional ?s"] by blast
  then have "distinct (provisional ?s @ fill)"
    using dProv dFill by (simp add: Int_commute)
  then have "distinct (selectSpacedRepetitionWords g allWords su cc lcu)"
    by (simp add: selectSpacedRepetitionWords_def sel)
  moreover have "selectSpacedRepetitionWords g allWords su cc lcu =
      batchNew ?s @ hardPick ?s @ mediumPick ?s @ easyPick ?s @ fill"
    by (simp add: selectSpacedRepetitionWords_def sel f(11))
  ultimately show ?thesis
    by blast
qed

text \<open>
  The universe of the eleven words: one new word, seven words from the three bands and
  one word from the backfill are selected.
\<close>

theorem no_duplicates_witness:
  "distinct exampleWords \<and>
   list_all (\<lambda>w. \<not> (exampleUsage w = Some 0 \<and> 0 < ownOr0 exampleClicks w)) exampleWords \<and>
   distinct (selectSpacedRepetitionWords exampleDraws exampleWords exampleUsage exampleClicks
      exampleLast)"
proof -
  have h1: "distinct exampleWords"
    by (simp add: exampleWords_def)
  have h2: "\<forall>w \<in> set exampleWords.
      \<not> (exampleUsage w = Some 0 \<and> 0 < ownOr0 exampleClicks w)"
    by (simp add: exampleWords_def exampleUsage_def)
  show ?thesis
    using h1 h2 no_duplicates [OF h1 h2, of exampleDraws exampleLast, THEN conjunct1]
    by (simp only: list_all_iff)
qed

text \<open>
  Claim C2 as stated fails at the first input of the counterexample to C1: the word is
  drawn as a new word and again from the hard band, and the provisional batch holds it
  twice.
\<close>

theorem duplicate_counterexample:
  "distinct [str ''wort''] \<and>
   selectSpacedRepetitionWords (\<lambda>k. 0) [str ''wort''] [str ''wort'' \<mapsto> 0]
     [str ''wort'' \<mapsto> 1] Map.empty = [str ''wort'', str ''wort'']"
  by code_simp

section \<open>The sanitizer\<close>

text \<open>
  Removing the runs of the class is removing its code points. \<open>trim\<close> returns a part of
  its argument that neither starts nor ends with white space, and leaves such a string
  as it is.
\<close>

lemma filter_dropWhile_not:
  "filter (\<lambda>c. \<not> P c) (dropWhile P cs) = filter (\<lambda>c. \<not> P c) cs"
  by (induction cs) simp_all

lemma replaceRuns_filter: "replaceRuns cls s = filter (\<lambda>c. \<not> cls c) s"
  by (induction cls s rule: replaceRuns.induct) (simp_all add: filter_dropWhile_not)

lemma trim_fixed:
  assumes "s = [] \<or> (\<not> isWhiteSpace (hd s) \<and> \<not> isWhiteSpace (last s))"
  shows "trim s = s"
proof (cases s)
  case Nil
  then show ?thesis by (simp add: trim_def)
next
  case (Cons c cs)
  then have ne: "s \<noteq> []"
    by simp
  with assms have h: "\<not> isWhiteSpace (hd s)" and l: "\<not> isWhiteSpace (last s)"
    by simp_all
  have 1: "dropWhile isWhiteSpace s = s"
    using h by (simp only: dropWhile_eq_self_iff) simp
  have "hd (rev s) = last s"
    using ne by (simp add: hd_rev)
  with l have "\<not> isWhiteSpace (hd (rev s))"
    by simp
  then have 2: "dropWhile isWhiteSpace (rev s) = rev s"
    by (simp only: dropWhile_eq_self_iff) simp
  show ?thesis
    by (simp only: trim_def 1 2 rev_rev_ident)
qed

lemma trim_ends:
  "trim s = [] \<or> (\<not> isWhiteSpace (hd (trim s)) \<and> \<not> isWhiteSpace (last (trim s)))"
proof (cases "trim s = []")
  case True
  then show ?thesis by simp
next
  case False
  let ?ys = "dropWhile isWhiteSpace s"
  let ?us = "dropWhile isWhiteSpace (rev ?ys)"
  have us: "?us \<noteq> []"
    using False by (simp add: trim_def)
  then have l: "\<not> isWhiteSpace (hd ?us)"
    by (rule hd_dropWhile)
  have ys: "?ys \<noteq> []"
  proof
    assume "?ys = []"
    then have "?us = []"
      by (simp only: rev.simps dropWhile.simps)
    with us show False
      by contradiction
  qed
  then have hy: "\<not> isWhiteSpace (hd ?ys)"
    by (rule hd_dropWhile)
  have "last ?us = last (rev ?ys)"
    using us by (metis dropWhile_eq_Nil_conv last_appendR takeWhile_dropWhile_id)
  then have "last ?us = hd ?ys"
    using ys by (simp add: last_rev)
  with hy l us show ?thesis
    by (simp add: trim_def hd_rev last_rev)
qed

text \<open>
  The code points of a string, put together again, are the string; and a sequence of
  code points without a lone surrogate is read back from its code units as it is.
\<close>

lemma concat_codePoints: "concat (codePoints s) = s"
  by (induction s rule: codePoints.induct) simp_all

lemma goodPoint_cases:
  assumes "goodPoint p"
  obtains u where "p = [u]" "\<not> isHigh u" "\<not> isLow u"
    | h l where "p = [h, l]" "isHigh h" "isLow l"
  using assms by (auto simp: goodPoint_def split: list.splits)

lemma codePoints_concat:
  "list_all goodPoint qs \<Longrightarrow> codePoints (concat qs) = qs"
proof (induction qs)
  case Nil
  then show ?case by simp
next
  case (Cons q qs)
  then have q: "goodPoint q" and ih: "codePoints (concat qs) = qs"
    by simp_all
  from q show ?case
  proof (cases rule: goodPoint_cases)
    case (1 u)
    show ?thesis
    proof (cases "concat qs")
      case Nil
      with ih have "qs = []"
        by simp
      with 1 show ?thesis
        by simp
    next
      case (Cons l us)
      with 1 ih show ?thesis
        by simp
    qed
  next
    case (2 h l)
    with ih show ?thesis
      by simp
  qed
qed

lemma whiteSpace_no_surrogate: "isWhiteSpace u \<Longrightarrow> \<not> isHigh u \<and> \<not> isLow u"
  by (auto simp: isWhiteSpace_def isHigh_def isLow_def)

text \<open>
  White space is dropped from a sequence of code points, at either end, code point by
  code point: a code point that starts with white space is that one code unit.
\<close>

lemma dropWhile_concat:
  assumes "\<And>q. q \<in> set qs \<Longrightarrow> q \<noteq> [] \<and> (W (hd q) \<longrightarrow> length q = 1)"
  shows "\<exists>rs. dropWhile W (concat qs) = concat rs \<and> set rs \<subseteq> set qs"
  using assms
proof (induction qs)
  case Nil
  then show ?case by simp
next
  case (Cons q qs)
  then obtain rs where rs: "dropWhile W (concat qs) = concat rs" "set rs \<subseteq> set qs"
    by auto
  from Cons.prems have q: "q \<noteq> []" "W (hd q) \<longrightarrow> length q = 1"
    by simp_all
  show ?case
  proof (cases "W (hd q)")
    case True
    with q obtain u where "q = [u]" "W u"
      by (cases q) auto
    then have "dropWhile W (concat (q # qs)) = concat rs"
      using rs(1) by simp
    with rs(2) show ?thesis
      by auto
  next
    case False
    with q have "dropWhile W (concat (q # qs)) = concat (q # qs)"
      by (cases q) auto
    then show ?thesis
      by blast
  qed
qed

lemma trim_concat:
  assumes "list_all goodPoint qs"
  shows "\<exists>rs. trim (concat qs) = concat rs \<and> set rs \<subseteq> set qs"
proof -
  have fr: "q \<noteq> [] \<and> (isWhiteSpace (hd q) \<longrightarrow> length q = 1)" if "goodPoint q" for q
    using that whiteSpace_no_surrogate by (cases rule: goodPoint_cases) auto
  have bk: "rev q \<noteq> [] \<and> (isWhiteSpace (hd (rev q)) \<longrightarrow> length (rev q) = 1)"
    if "goodPoint q" for q
    using that whiteSpace_no_surrogate by (cases rule: goodPoint_cases) auto
  have good: "goodPoint q" if "q \<in> set qs" for q
    using assms that by (simp add: list_all_iff)
  obtain rs where rs: "dropWhile isWhiteSpace (concat qs) = concat rs" "set rs \<subseteq> set qs"
    using dropWhile_concat [of qs isWhiteSpace] fr good by blast
  have "\<And>q. q \<in> set (map rev (rev rs)) \<Longrightarrow>
      q \<noteq> [] \<and> (isWhiteSpace (hd q) \<longrightarrow> length q = 1)"
    using bk good rs(2) by auto
  then obtain ts where ts: "dropWhile isWhiteSpace (concat (map rev (rev rs))) = concat ts"
    "set ts \<subseteq> set (map rev (rev rs))"
    using dropWhile_concat [of "map rev (rev rs)" isWhiteSpace] by blast
  have "trim (concat qs) = rev (dropWhile isWhiteSpace (rev (concat rs)))"
    by (simp only: trim_def rs(1))
  also have "\<dots> = rev (concat ts)"
    by (simp only: rev_concat ts(1))
  also have "\<dots> = concat (map rev (rev ts))"
    by (rule rev_concat)
  finally have "trim (concat qs) = concat (map rev (rev ts))" .
  moreover have "set (map rev (rev ts)) \<subseteq> set qs"
  proof
    fix q
    assume "q \<in> set (map rev (rev ts))"
    then obtain t where "t \<in> set ts" "q = rev t"
      by auto
    with ts(2) obtain r where "r \<in> set rs" "t = rev r"
      by auto
    with \<open>q = rev t\<close> rs(2) show "q \<in> set qs"
      by auto
  qed
  ultimately show ?thesis
    by blast
qed

text \<open>
  Claim C10, as the code has it. On a well-formed string \<open>sanitizeWord\<close> is idempotent,
  whatever the class of punctuation and symbols is.
\<close>

theorem sanitize_idempotent:
  assumes "wellFormed s"
  shows "sanitizeWord isPS (sanitizeWord isPS s) = sanitizeWord isPS s"
proof -
  let ?keep = "\<lambda>p. \<not> isPS (pointValue p)"
  let ?ps = "filter ?keep (codePoints s)"
  have good: "list_all goodPoint ?ps"
    using assms by (simp add: wellFormed_def list_all_iff)
  obtain rs where t: "trim (concat ?ps) = concat rs" and sub: "set rs \<subseteq> set ?ps"
    using trim_concat [OF good] by blast
  have san: "sanitizeWord isPS s = concat rs"
    by (simp only: sanitizeWord_def replaceRuns_filter t)
  have rs_good: "list_all goodPoint rs"
    using good sub by (auto simp: list_all_iff)
  have rs_keep: "filter ?keep rs = rs"
    using sub by (auto simp: filter_id_conv)
  have "sanitizeWord isPS (concat rs) = trim (concat (filter ?keep (codePoints (concat rs))))"
    by (simp only: sanitizeWord_def replaceRuns_filter)
  also have "\<dots> = trim (concat rs)"
    by (simp only: codePoints_concat [OF rs_good] rs_keep)
  also have "\<dots> = trim (trim (concat ?ps))"
    by (simp only: t)
  also have "\<dots> = trim (concat ?ps)"
    using trim_ends [of "concat ?ps"] by (rule trim_fixed)
  also have "\<dots> = concat rs"
    by (rule t)
  finally show ?thesis
    by (simp only: san)
qed

text \<open>The definitions that evaluate the sanitizer on an example.\<close>

lemmas sanitize_eval = sanitizeWord_def replaceRuns_filter trim_def isWhiteSpace_def isHigh_def
  isLow_def pointValue_def examplePS_def str_def

text \<open>The token \<open>(Hund),\<close> between two spaces is well formed and sanitizes to \<open>Hund\<close>.\<close>

theorem sanitize_idempotent_witness:
  "wellFormed (str '' (Hund), '') \<and>
   sanitizeWord examplePS (str '' (Hund), '') = str ''Hund'' \<and>
   sanitizeWord examplePS (sanitizeWord examplePS (str '' (Hund), ''))
     = sanitizeWord examplePS (str '' (Hund), '')"
proof -
  have h: "wellFormed (str '' (Hund), '')"
    by (simp add: wellFormed_def goodPoint_def isHigh_def isLow_def str_def)
  have v: "sanitizeWord examplePS (str '' (Hund), '') = str ''Hund''"
    by (simp add: sanitize_eval)
  show ?thesis
    using h v sanitize_idempotent [OF h, of examplePS] by blast
qed

text \<open>
  Claim C10 as stated fails on a string with unpaired surrogates. In the three code
  units \<open>D83D\<close>, \<open>!\<close>, \<open>DE00\<close> the two surrogates are code points by themselves and only
  the exclamation mark is removed; the two code units that remain are the one code
  point U+1F600, a symbol, which a second call removes.
\<close>

theorem sanitize_surrogates_counterexample:
  "sanitizeWord examplePS [0xD83D, 0x21, 0xDE00] = [0xD83D, 0xDE00] \<and>
   sanitizeWord examplePS (sanitizeWord examplePS [0xD83D, 0x21, 0xDE00]) = [] \<and>
   pointValue [0xD83D, 0xDE00] = 0x1F600"
  by (simp add: sanitize_eval)

section \<open>The click recorder\<close>

text \<open>
  Claim C8. The click recorder removes every code point of the punctuation and symbol
  class from the raw token and trims the result; when nothing remains the click does
  nothing: no document is read or written (the list of effects is empty), the documents
  are unchanged, and the handler returns. The same holds for the listener on the span.
\<close>

theorem empty_token_discarded:
  "sanitizeWord isPS rawWord =
     trim (concat (filter (\<lambda>p. \<not> isPS (pointValue p)) (codePoints rawWord))) \<and>
   (sanitizeWord isPS rawWord = [] \<longrightarrow>
      handleWordClick isPS rawWord d = ([], d) \<and> spanClick isPS rawWord d = ([], d))"
proof -
  have "sanitizeWord isPS rawWord =
      trim (concat (filter (\<lambda>p. \<not> isPS (pointValue p)) (codePoints rawWord)))"
    by (simp only: sanitizeWord_def replaceRuns_filter)
  moreover have "handleWordClick isPS rawWord d = ([], d)"
    if "sanitizeWord isPS rawWord = []"
    using that by (simp add: handleWordClick_def)
  moreover have "spanClick isPS rawWord d = ([], d)"
    if "sanitizeWord isPS rawWord = []"
    using that by (simp add: spanClick_def)
  ultimately show ?thesis
    by blast
qed

text \<open>The token \<open>?!\<close> between two spaces sanitizes to the empty string.\<close>

theorem empty_token_discarded_witness:
  "sanitizeWord examplePS (str '' ?! '') = [] \<and>
   handleWordClick examplePS (str '' ?! '')
     \<lparr> wordBank = None, wordStats = Some \<lparr> storyUsage = [str ''hund'' \<mapsto> 7],
         clickCount = [str ''hund'' \<mapsto> 2], lastClickUsage = [str ''hund'' \<mapsto> 3] \<rparr> \<rparr> =
     ([], \<lparr> wordBank = None, wordStats = Some \<lparr> storyUsage = [str ''hund'' \<mapsto> 7],
         clickCount = [str ''hund'' \<mapsto> 2], lastClickUsage = [str ''hund'' \<mapsto> 3] \<rparr> \<rparr>)"
proof -
  have h: "sanitizeWord examplePS (str '' ?! '') = []"
    by (simp add: sanitize_eval)
  show ?thesis
    using h empty_token_discarded [of examplePS "str '' ?! ''"
        "\<lparr> wordBank = None, wordStats = Some \<lparr> storyUsage = [str ''hund'' \<mapsto> 7],
            clickCount = [str ''hund'' \<mapsto> 2], lastClickUsage = [str ''hund'' \<mapsto> 3] \<rparr> \<rparr>"]
    by blast
qed

text \<open>
  What a click records where \<open>storyUsage[w]\<close> does not read as an inherited member.
  Let \<open>w\<close> be the sanitized form of the clicked token, not empty. After the click the
  statistics document exists; \<open>clickCount[w]\<close> is one more than before (a missing entry
  counting as \<open>0\<close>); \<open>lastClickUsage[w]\<close> is exactly the \<open>storyUsage[w]\<close> of before the click
  (\<open>0\<close> if absent), whatever it was before; \<open>storyUsage\<close> and the entries of all other
  words are unchanged, and so is the word bank. If there was no statistics document, the
  new one holds the entries of \<open>w\<close> only in \<open>clickCount\<close> and \<open>lastClickUsage\<close>, and an
  empty \<open>storyUsage\<close>.
\<close>

lemma click_recorded:
  assumes w: "sanitizeWord isPS rawWord = w" and ne: "w \<noteq> []"
    and plain: "getProp (storyUsage (statsOrEmpty d)) w \<noteq> Inherited"
  shows "\<exists>new. wordStats (snd (handleWordClick isPS rawWord d)) = Some new \<and>
           ownOr0 (clickCount new) w = ownOr0 (clickCount (statsOrEmpty d)) w + 1 \<and>
           lastClickUsage new w = Some (ownOr0 (storyUsage (statsOrEmpty d)) w) \<and>
           storyUsage new = storyUsage (statsOrEmpty d) \<and>
           (\<forall>v. v \<noteq> w \<longrightarrow> clickCount new v = clickCount (statsOrEmpty d) v \<and>
                          lastClickUsage new v = lastClickUsage (statsOrEmpty d) v) \<and>
           wordBank (snd (handleWordClick isPS rawWord d)) = wordBank d \<and>
           (wordStats d = None \<longrightarrow>
              new = \<lparr> storyUsage = Map.empty, clickCount = [w \<mapsto> 1],
                      lastClickUsage = [w \<mapsto> 0] \<rparr>)"
proof -
  have usage: "orZero (getProp (storyUsage (statsOrEmpty d)) w) =
      Num (ownOr0 (storyUsage (statsOrEmpty d)) w)"
    using plain by (simp add: getProp_def orZero_def ownOr0_def split: option.splits if_splits)
  show ?thesis
  proof (cases "wordStats d")
    case None
    then have "ownOr0 (storyUsage (statsOrEmpty d)) w = 0"
      by (simp add: statsOrEmpty_def emptyStats_def ownOr0_def)
    with None usage show ?thesis
      using w ne by (simp add: handleWordClick_def statsOrEmpty_def emptyStats_def ownOr0_def)
  next
    case (Some old)
    with usage show ?thesis
      using w ne by (simp add: handleWordClick_def statsOrEmpty_def ownOr0_def)
  qed
qed

text \<open>
  Claim C7 holds of the code except for the names of the members of
  \<^verbatim>\<open>Object.prototype\<close>. For the token \<open>constructor\<close>, which sanitizes to itself, and a
  \<open>storyUsage\<close> without an entry for it, \<^verbatim>\<open>storyUsage[word] || 0\<close> is the inherited
  function; the update is refused, the handler writes the error to the console, and the
  click is not recorded: the documents are as before.
\<close>

theorem click_on_constructor_not_recorded:
  "sanitizeWord examplePS (str ''constructor'') = str ''constructor'' \<and>
   str ''constructor'' \<noteq> [] \<and>
   getProp [str ''hund'' \<mapsto> 7] (str ''constructor'') = Inherited \<and>
   handleWordClick examplePS (str ''constructor'')
     \<lparr> wordBank = None, wordStats = Some \<lparr> storyUsage = [str ''hund'' \<mapsto> 7],
         clickCount = [str ''hund'' \<mapsto> 2], lastClickUsage = [str ''hund'' \<mapsto> 3] \<rparr> \<rparr> =
     ([GetDoc ''wordStats'', UpdateDoc ''wordStats'', LogClickError],
      \<lparr> wordBank = None, wordStats = Some \<lparr> storyUsage = [str ''hund'' \<mapsto> 7],
         clickCount = [str ''hund'' \<mapsto> 2], lastClickUsage = [str ''hund'' \<mapsto> 3] \<rparr> \<rparr>) \<and>
   handleWordClick examplePS (str ''constructor'') \<lparr> wordBank = None, wordStats = None \<rparr> =
     ([GetDoc ''wordStats'', UpdateDoc ''wordStats'', LogClickError],
      \<lparr> wordBank = None, wordStats = None \<rparr>)"
proof -
  have s: "sanitizeWord examplePS (str ''constructor'') = str ''constructor''"
    by (simp add: sanitize_eval)
  have n: "str ''constructor'' \<noteq> []"
    by (simp add: str_def)
  have g: "getProp [str ''hund'' \<mapsto> 7] (str ''constructor'') = Inherited"
    by (simp add: getProp_def objectPrototypeKeys_code str_def)
  have e: "getProp Map.empty (str ''constructor'') = Inherited"
    by (simp add: getProp_def objectPrototypeKeys_code str_def)
  show ?thesis
    using s n g e
    by (simp add: handleWordClick_def statsOrEmpty_def emptyStats_def orZero_def)
qed

section \<open>The corpus check of the batch generation\<close>

text \<open>
  Claim C6. With a word bank, when the universe has fewer than
  \<open>NEW_BATCH_SIZE + MIX_SIZE = 100\<close> words, \<open>fetchWords\<close> alerts that it needs at least
  100 words and returns: the selector is not called (no \<open>Selected\<close> effect, the random
  source is untouched), nothing is written, and the documents, with the three stat maps,
  are unchanged. When the universe has at least 100 words, this alert is not raised, and
  the selector is called on the universe and the stored maps.
\<close>

theorem insufficient_corpus:
  assumes "wordBank d = Some ws"
  shows "NEW_BATCH_SIZE + MIX_SIZE = 100 \<and>
    (length (allWordsOf nfkc ws) < NEW_BATCH_SIZE + MIX_SIZE \<longrightarrow>
       fetchWords nfkc g d =
         ([GetDoc ''wordBank'', GetDoc ''wordStats'',
           AlertNeedAtLeast 100 (length (allWordsOf nfkc ws))], d, g)) \<and>
    (NEW_BATCH_SIZE + MIX_SIZE \<le> length (allWordsOf nfkc ws) \<longrightarrow>
       (\<forall>a b. AlertNeedAtLeast a b \<notin> set (fst (fetchWords nfkc g d))) \<and>
       Selected (selectSpacedRepetitionWords g (allWordsOf nfkc ws)
           (storyUsage (statsOrEmpty d)) (clickCount (statsOrEmpty d))
           (lastClickUsage (statsOrEmpty d)))
         \<in> set (fst (fetchWords nfkc g d)))"
proof -
  have c: "NEW_BATCH_SIZE + MIX_SIZE = 100"
    by (simp add: NEW_BATCH_SIZE_def MIX_SIZE_def)
  have small: "fetchWords nfkc g d =
         ([GetDoc ''wordBank'', GetDoc ''wordStats'',
           AlertNeedAtLeast 100 (length (allWordsOf nfkc ws))], d, g)"
    if "length (allWordsOf nfkc ws) < NEW_BATCH_SIZE + MIX_SIZE"
    using that assms c by (simp add: fetchWords_def Let_def)
  have large: "(\<forall>a b. AlertNeedAtLeast a b \<notin> set (fst (fetchWords nfkc g d))) \<and>
       Selected (selectSpacedRepetitionWords g (allWordsOf nfkc ws)
           (storyUsage (statsOrEmpty d)) (clickCount (statsOrEmpty d))
           (lastClickUsage (statsOrEmpty d)))
         \<in> set (fst (fetchWords nfkc g d))"
    if "NEW_BATCH_SIZE + MIX_SIZE \<le> length (allWordsOf nfkc ws)"
  proof -
    have "\<not> length (allWordsOf nfkc ws) < NEW_BATCH_SIZE + MIX_SIZE"
      using that by simp
    then show ?thesis
      using assms
      by (cases "wordStats d")
        (simp_all add: fetchWords_def Let_def selectSpacedRepetitionWords_def)
  qed
  show ?thesis
    using c small large by blast
qed

text \<open>
  A word bank of two words and a value that is not a string, and the word bank of the
  one hundred words.
\<close>

theorem insufficient_corpus_witness:
  "wordBank \<lparr> wordBank = Some [FString (str ''alt''), FOther, FString (str ''bald'')],
       wordStats = None \<rparr>
     = Some [FString (str ''alt''), FOther, FString (str ''bald'')] \<and>
   length (allWordsOf (\<lambda>s. s) [FString (str ''alt''), FOther, FString (str ''bald'')])
     < NEW_BATCH_SIZE + MIX_SIZE \<and>
   fetchWords (\<lambda>s. s) (\<lambda>k. 0)
       \<lparr> wordBank = Some [FString (str ''alt''), FOther, FString (str ''bald'')],
         wordStats = None \<rparr> =
     ([GetDoc ''wordBank'', GetDoc ''wordStats'', AlertNeedAtLeast 100 2],
      \<lparr> wordBank = Some [FString (str ''alt''), FOther, FString (str ''bald'')],
        wordStats = None \<rparr>, \<lambda>k. 0) \<and>
   wordBank \<lparr> wordBank = Some (map FString hundredWords), wordStats = None \<rparr>
     = Some (map FString hundredWords) \<and>
   NEW_BATCH_SIZE + MIX_SIZE \<le> length (allWordsOf (\<lambda>s. s) (map FString hundredWords)) \<and>
   Selected (selectSpacedRepetitionWords (\<lambda>k. 0) (allWordsOf (\<lambda>s. s) (map FString hundredWords))
       Map.empty Map.empty Map.empty)
     \<in> set (fst (fetchWords (\<lambda>s. s) (\<lambda>k. 0)
         \<lparr> wordBank = Some (map FString hundredWords), wordStats = None \<rparr>))"
proof -
  have h1: "wordBank \<lparr> wordBank = Some [FString (str ''alt''), FOther, FString (str ''bald'')],
       wordStats = None \<rparr>
     = Some [FString (str ''alt''), FOther, FString (str ''bald'')]"
    by simp
  have h2: "length (allWordsOf (\<lambda>s. s) [FString (str ''alt''), FOther, FString (str ''bald'')])
      < NEW_BATCH_SIZE + MIX_SIZE"
    by code_simp
  have l2: "length (allWordsOf (\<lambda>s. s) [FString (str ''alt''), FOther, FString (str ''bald'')])
      = 2"
    by code_simp
  have h3: "wordBank \<lparr> wordBank = Some (map FString hundredWords), wordStats = None \<rparr>
     = Some (map FString hundredWords)"
    by simp
  have h4: "NEW_BATCH_SIZE + MIX_SIZE \<le> length (allWordsOf (\<lambda>s. s) (map FString hundredWords))"
    by code_simp
  show ?thesis
    using h1 h2 h3 h4 l2
      insufficient_corpus [OF h1, of "\<lambda>s. s" "\<lambda>k. 0"]
      insufficient_corpus [OF h3, of "\<lambda>s. s" "\<lambda>k. 0"]
    by (simp add: statsOrEmpty_def emptyStats_def)
qed

end
